theory Spec2Isabelle
  imports Complex_Main "HOL-Library.Sublist"
begin

section \<open>The resampler of \<^verbatim>\<open>src/util/file_operations.py\<close>\<close>

text \<open>
  The class \<^verbatim>\<open>Resampler\<close> reads recordings with pandas, splits them with
  \<^verbatim>\<open>numpy.array_split\<close>, reduces every window to the mean of the absolute values
  of each column and appends one line per window to an output file.

  The embedding is shallow. Every Python exception is a value of \<open>error\<close>; the
  file system is an explicit state. Two things are taken as they are documented by
  their libraries and are not part of the repository:
  \<^item> the text parser of \<^verbatim>\<open>pandas.read_csv\<close> and the printing of a float by
    \<^verbatim>\<open>DataFrame.to_csv\<close> are parameters (\<open>parse\<close>, \<open>fmt\<close>) of every function that
    reads or writes a file;
  \<^item> numbers are \<open>real\<close> and the arithmetic is exact. pandas computes in
    \<^verbatim>\<open>int64\<close> and \<^verbatim>\<open>float64\<close>: there the mean is rounded (and can overflow), and
    \<^verbatim>\<open>abs\<close> of the least \<^verbatim>\<open>int64\<close> wraps around. No theorem of this file says what
    the value of a written number is in machine arithmetic; the theorems about the
    output name each row through \<open>summary_row\<close> and \<open>mean_abs_row\<close>.
\<close>

subsection \<open>Exceptions\<close>

datatype error = AssertionError | ValueError | ZeroDivisionError | TypeError | OSError

subsection \<open>\<^verbatim>\<open>numpy.array_split\<close> for a scalar number of sections\<close>

text \<open>
  \<^verbatim>\<open>Nsections = int(indices_or_sections)\<close>; a value \<open>\<le> 0\<close> raises
  \<^verbatim>\<open>ValueError\<close>. Otherwise
  \<^verbatim>\<open>Neach_section, extras = divmod(Ntotal, Nsections)\<close>,
  \<^verbatim>\<open>section_sizes = [0] + extras * [Neach_section+1] + (Nsections-extras) * [Neach_section]\<close>,
  \<^verbatim>\<open>div_points = cumsum(section_sizes)\<close> and the \<open>i\<close>-th part is
  \<^verbatim>\<open>ary[div_points[i]:div_points[i+1]]\<close>.
\<close>

definition section_sizes :: "nat \<Rightarrow> nat \<Rightarrow> nat list" where
  "section_sizes Ntotal Nsections =
     (let Neach_section = Ntotal div Nsections; extras = Ntotal mod Nsections
      in [0] @ replicate extras (Neach_section + 1) @ replicate (Nsections - extras) Neach_section)"

fun cumsum :: "nat \<Rightarrow> nat list \<Rightarrow> nat list" where
  "cumsum acc [] = []"
| "cumsum acc (x # xs) = (acc + x) # cumsum (acc + x) xs"

text \<open>The slice \<^verbatim>\<open>xs[st:en]\<close> for indices \<open>0 \<le> st\<close>, \<open>0 \<le> en\<close>.\<close>

definition py_slice :: "nat \<Rightarrow> nat \<Rightarrow> 'a list \<Rightarrow> 'a list" where
  "py_slice st en xs = take (en - st) (drop st xs)"

definition array_split :: "'a list \<Rightarrow> int \<Rightarrow> error + 'a list list" where
  "array_split ary indices_or_sections =
     (let Ntotal = length ary; Nsections = indices_or_sections in
      if Nsections \<le> 0 then Inl ValueError
      else
        let div_points = cumsum 0 (section_sizes Ntotal (nat Nsections))
        in Inr (map (\<lambda>i. py_slice (div_points ! i) (div_points ! (i + 1)) ary)
                 [0..<nat Nsections]))"

subsection \<open>Data frames\<close>

text \<open>
  A cell is a number, a missing value or anything else (a string). A frame has a
  dtype for each column and its rows in order; pandas keeps every row as wide as the
  list of columns (\<open>rectangular\<close>).
\<close>

datatype cell = Num real | NaN | Obj string

datatype dtype = Numeric | Object

record frame =
  dtypes :: "dtype list"
  rows :: "cell list list"

definition ncols :: "frame \<Rightarrow> nat" where
  "ncols df = length (dtypes df)"

definition rectangular :: "frame \<Rightarrow> bool" where
  "rectangular df = list_all (\<lambda>r. length r = ncols df) (rows df)"

text \<open>\<^verbatim>\<open>df.iloc[:stop]\<close>: a negative \<open>stop\<close> counts from the end and is clipped at 0.\<close>

definition iloc_to :: "frame \<Rightarrow> int \<Rightarrow> frame" where
  "iloc_to df stop =
     (if stop < 0 then df\<lparr>rows := take (nat (int (length (rows df)) + stop)) (rows df)\<rparr>
      else df\<lparr>rows := take (nat stop) (rows df)\<rparr>)"

text \<open>\<^verbatim>\<open>np.array_split(df, n)\<close> slices the rows and keeps the columns.\<close>

definition array_split_df :: "frame \<Rightarrow> int \<Rightarrow> error + frame list" where
  "array_split_df df n =
     (case array_split (rows df) n of
        Inl e \<Rightarrow> Inl e
      | Inr parts \<Rightarrow> Inr (map (\<lambda>p. df\<lparr>rows := p\<rparr>) parts))"

text \<open>\<^verbatim>\<open>df.abs()\<close> raises \<^verbatim>\<open>TypeError\<close> when a column is not numeric.\<close>

fun cell_abs :: "cell \<Rightarrow> cell" where
  "cell_abs (Num x) = Num \<bar>x\<bar>"
| "cell_abs NaN = NaN"
| "cell_abs (Obj s) = Obj s"

definition df_abs :: "frame \<Rightarrow> error + frame" where
  "df_abs df =
     (if Object \<in> set (dtypes df) then Inl TypeError
      else Inr (df\<lparr>rows := map (map cell_abs) (rows df)\<rparr>))"

text \<open>
  \<^verbatim>\<open>df.mean()\<close> is taken column by column and skips missing values; a column with
  no number (in particular a column of a frame without rows) has mean \<^verbatim>\<open>NaN\<close>.
\<close>

fun numbers :: "cell list \<Rightarrow> real list" where
  "numbers [] = []"
| "numbers (Num x # cs) = x # numbers cs"
| "numbers (c # cs) = numbers cs"

definition col_mean :: "cell list \<Rightarrow> cell" where
  "col_mean cs =
     (let vs = numbers cs
      in if vs = [] then NaN else Num (sum_list vs / real (length vs)))"

definition cell_at :: "cell list \<Rightarrow> nat \<Rightarrow> cell" where
  "cell_at r i = (if i < length r then r ! i else NaN)"

definition column :: "frame \<Rightarrow> nat \<Rightarrow> cell list" where
  "column df i = map (\<lambda>r. cell_at r i) (rows df)"

definition df_mean :: "frame \<Rightarrow> cell list" where
  "df_mean df = map (\<lambda>i. col_mean (column df i)) [0..<ncols df]"

text \<open>
  \<^verbatim>\<open>np.array(v).reshape(1, k)\<close> of a vector: \<open>k = -1\<close> lets numpy infer the width,
  any other \<open>k\<close> must be the length of the vector.
\<close>

definition reshape_row :: "int \<Rightarrow> cell list \<Rightarrow> error + cell list" where
  "reshape_row k v = (if k = - 1 \<or> k = int (length v) then Inr v else Inl ValueError)"

subsection \<open>Strings\<close>

text \<open>\<^verbatim>\<open>sep.join(xs)\<close>, \<^verbatim>\<open>str(n)\<close> of an integer, and \<^verbatim>\<open>sub in s\<close>.\<close>

fun join :: "string \<Rightarrow> string list \<Rightarrow> string" where
  "join sep [] = []"
| "join sep [x] = x"
| "join sep (x # y # ys) = x @ sep @ join sep (y # ys)"

fun digits10 :: "nat \<Rightarrow> string" where
  "digits10 n =
     (if n < 10 then [''0123456789'' ! n]
      else digits10 (n div 10) @ [''0123456789'' ! (n mod 10)])"

declare digits10.simps [simp del]

definition str_int :: "int \<Rightarrow> string" where
  "str_int i = (if i < 0 then CHR ''-'' # digits10 (nat (- i)) else digits10 (nat i))"

fun py_in :: "string \<Rightarrow> string \<Rightarrow> bool" where
  "py_in sub [] = (sub = [])"
| "py_in sub (c # cs) = (prefix sub (c # cs) \<or> py_in sub cs)"

subsection \<open>The file system\<close>

text \<open>
  A path names a file (its lines) or a directory (the names of its entries, in the
  order in which \<^verbatim>\<open>os.scandir\<close> yields them). Paths are compared as strings.
\<close>

datatype node = File "string list" | Dir "string list"

type_synonym fs = "string \<Rightarrow> node option"

type_synonym parser = "string list \<Rightarrow> char \<Rightarrow> bool \<Rightarrow> error + frame"

definition os_path_exists :: "fs \<Rightarrow> string \<Rightarrow> bool" where
  "os_path_exists fs path = (fs path \<noteq> None)"

definition os_remove :: "fs \<Rightarrow> string \<Rightarrow> error + fs" where
  "os_remove fs path =
     (case fs path of
        Some (File _) \<Rightarrow> Inr (fs(path := None))
      | _ \<Rightarrow> Inl OSError)"

definition os_scandir :: "fs \<Rightarrow> string \<Rightarrow> error + string list" where
  "os_scandir fs path =
     (case fs path of
        Some (Dir names) \<Rightarrow> Inr names
      | _ \<Rightarrow> Inl OSError)"

text \<open>
  \<^verbatim>\<open>pd.read_csv(path, sep=sep, header=...)\<close>; \<open>header\<close> says whether the first line
  holds the column names (\<^verbatim>\<open>header=None\<close> is \<open>False\<close>).
\<close>

definition read_csv :: "parser \<Rightarrow> fs \<Rightarrow> string \<Rightarrow> char \<Rightarrow> bool \<Rightarrow> error + frame" where
  "read_csv parse fs path sep header =
     (case fs path of
        Some (File txt) \<Rightarrow> parse txt sep header
      | _ \<Rightarrow> Inl OSError)"

text \<open>
  \<^verbatim>\<open>frame.to_csv(path, mode='a', index=False, header=False, sep=sep)\<close> for a frame
  of one row: the cells joined by the separator, as one more line of the file; a
  missing value is printed as the empty string. A row whose only field is empty is
  written as two double quotes, so that the line is not blank.
\<close>

fun cell_str :: "(real \<Rightarrow> string) \<Rightarrow> cell \<Rightarrow> string" where
  "cell_str fmt (Num x) = fmt x"
| "cell_str fmt NaN = []"
| "cell_str fmt (Obj s) = s"

definition csv_line :: "(real \<Rightarrow> string) \<Rightarrow> char \<Rightarrow> cell list \<Rightarrow> string" where
  "csv_line fmt sep row =
     (let fields = map (cell_str fmt) row
      in if fields = [[]] then [CHR 0x22, CHR 0x22] else join [sep] fields)"

definition to_csv :: "(real \<Rightarrow> string) \<Rightarrow> fs \<Rightarrow> string \<Rightarrow> cell list \<Rightarrow> char \<Rightarrow> error + fs" where
  "to_csv fmt fs path row sep =
     (case fs path of
        Some (Dir _) \<Rightarrow> Inl OSError
      | Some (File old) \<Rightarrow> Inr (fs(path \<mapsto> File (old @ [csv_line fmt sep row])))
      | None \<Rightarrow> Inr (fs(path \<mapsto> File [csv_line fmt sep row])))"

subsection \<open>\<^verbatim>\<open>Resampler\<close>\<close>

record resampler =
  data_path :: string
  dataset :: string
  num_features :: int

text \<open>\<^verbatim>\<open>__init__\<close> (lines 14 to 17).\<close>

definition init :: "string \<Rightarrow> int \<Rightarrow> resampler" where
  "init path n =
     \<lparr>data_path = path,
      dataset = (if py_in ''kbm'' path then ''kbm'' else ''bearing''),
      num_features = n\<rparr>"

text \<open>
  The reduction of one window (lines 51 and 52 with width 4, lines 87 and 88 with
  width \<^verbatim>\<open>self.num_features\<close>):
  \<^verbatim>\<open>np.array(df_chunk.abs().mean()).reshape(1, width)\<close>.
\<close>

definition summary_row :: "int \<Rightarrow> frame \<Rightarrow> error + cell list" where
  "summary_row width df_chunk =
     (case df_abs df_chunk of
        Inl e \<Rightarrow> Inl e
      | Inr a \<Rightarrow> reshape_row width (df_mean a))"

text \<open>
  The inner loop \<^verbatim>\<open>for df_chunk in dfs\<close> (lines 49 to 54 with width 4, lines 85 to
  89 with width \<^verbatim>\<open>self.num_features\<close>). A run returns the exception that ended
  it, if any, and the file system it leaves.
\<close>

fun write_chunks ::
  "(real \<Rightarrow> string) \<Rightarrow> string \<Rightarrow> int \<Rightarrow> frame list \<Rightarrow> fs \<Rightarrow> error option \<times> fs" where
  "write_chunks fmt save_path width [] fs = (None, fs)"
| "write_chunks fmt save_path width (df_chunk # dfs) fs =
     (case summary_row width df_chunk of
        Inl e \<Rightarrow> (Some e, fs)
      | Inr mean_abs \<Rightarrow>
          (case to_csv fmt fs save_path mean_abs CHR '';'' of
             Inl e \<Rightarrow> (Some e, fs)
           | Inr fs' \<Rightarrow> write_chunks fmt save_path width dfs fs'))"

text \<open>
  The output file \<^verbatim>\<open>f"{self.data_path}_{resample_size}.csv"\<close> (lines 28, 54 and 66).
\<close>

definition out_path :: "string \<Rightarrow> int \<Rightarrow> string" where
  "out_path path resample_size = path @ ''_'' @ str_int resample_size @ ''.csv''"

text \<open>\<^verbatim>\<open>resample_data_bearing\<close> (lines 37 to 54): the loop over the entries.\<close>

fun bearing_files ::
  "parser \<Rightarrow> (real \<Rightarrow> string) \<Rightarrow> string \<Rightarrow> int \<Rightarrow> string list \<Rightarrow> fs \<Rightarrow> error option \<times> fs" where
  "bearing_files parse fmt path resample_size [] fs = (None, fs)"
| "bearing_files parse fmt path resample_size (file_name # files) fs =
     (case read_csv parse fs (path @ ''/'' @ file_name) (CHR 0x09) False of
        Inl e \<Rightarrow> (Some e, fs)
      | Inr df \<Rightarrow>
          (case array_split_df df resample_size of
             Inl e \<Rightarrow> (Some e, fs)
           | Inr dfs \<Rightarrow>
               (case write_chunks fmt (out_path path resample_size) 4 dfs fs of
                  (Some e, fs') \<Rightarrow> (Some e, fs')
                | (None, fs') \<Rightarrow> bearing_files parse fmt path resample_size files fs')))"

definition resample_data_bearing ::
  "parser \<Rightarrow> (real \<Rightarrow> string) \<Rightarrow> resampler \<Rightarrow> int \<Rightarrow> fs \<Rightarrow> error option \<times> fs" where
  "resample_data_bearing parse fmt self resample_size fs =
     (case os_scandir fs (data_path self) of
        Inl e \<Rightarrow> (Some e, fs)
      | Inr files \<Rightarrow> bearing_files parse fmt (data_path self) resample_size files fs)"

text \<open>
  \<^verbatim>\<open>resample_data_kbm\<close> (lines 56 to 89). Lines 74 and 75 cut the table and split
  it into measurements: \<^verbatim>\<open>len(df) / 4000\<close> is a float, which
  \<^verbatim>\<open>array_split\<close> truncates with \<^verbatim>\<open>int\<close>.
\<close>

definition kbm_truncate :: "frame \<Rightarrow> int \<Rightarrow> error + frame" where
  "kbm_truncate df sampling_rate =
     (if sampling_rate = 0 then Inl ZeroDivisionError
      else Inr (iloc_to df (- (int (length (rows df)) mod sampling_rate))))"

definition kbm_measurements :: "frame \<Rightarrow> int \<Rightarrow> error + frame list" where
  "kbm_measurements df sampling_rate =
     (case kbm_truncate df sampling_rate of
        Inl e \<Rightarrow> Inl e
      | Inr df' \<Rightarrow> array_split_df df' (int (length (rows df')) div 4000))"

fun kbm_loop ::
  "(real \<Rightarrow> string) \<Rightarrow> string \<Rightarrow> int \<Rightarrow> int \<Rightarrow> frame list \<Rightarrow> fs \<Rightarrow> error option \<times> fs" where
  "kbm_loop fmt save_path width resample_size [] fs = (None, fs)"
| "kbm_loop fmt save_path width resample_size (df_measurement # ms) fs =
     (case array_split_df df_measurement resample_size of
        Inl e \<Rightarrow> (Some e, fs)
      | Inr dfs \<Rightarrow>
          (case write_chunks fmt save_path width dfs fs of
             (Some e, fs') \<Rightarrow> (Some e, fs')
           | (None, fs') \<Rightarrow> kbm_loop fmt save_path width resample_size ms fs'))"

text \<open>
  \<^verbatim>\<open>if os.path.exists(p): os.remove(p)\<close> (lines 28 and 29, lines 67 and 68).
\<close>

definition remove_if_exists :: "fs \<Rightarrow> string \<Rightarrow> error + fs" where
  "remove_if_exists fs path = (if os_path_exists fs path then os_remove fs path else Inr fs)"

definition resample_data_kbm ::
  "parser \<Rightarrow> (real \<Rightarrow> string) \<Rightarrow> resampler \<Rightarrow> int \<Rightarrow> int \<Rightarrow> fs \<Rightarrow> error option \<times> fs" where
  "resample_data_kbm parse fmt self resample_size sampling_rate fs =
     (if resample_size = sampling_rate then (Some AssertionError, fs)
      else
        let save_path = out_path (data_path self) resample_size in
        case remove_if_exists fs save_path of
          Inl e \<Rightarrow> (Some e, fs)
        | Inr fs1 \<Rightarrow>
            (case read_csv parse fs1 (data_path self @ ''_4000.csv'') CHR '','' True of
               Inl e \<Rightarrow> (Some e, fs1)
             | Inr df \<Rightarrow>
                 (case kbm_measurements df sampling_rate of
                    Inl e \<Rightarrow> (Some e, fs1)
                  | Inr ms \<Rightarrow>
                      kbm_loop fmt save_path (num_features self) resample_size ms fs1)))"

text \<open>
  \<^verbatim>\<open>resample_data\<close> (lines 24 to 35) calls the KBM strategy with the default
  \<^verbatim>\<open>sampling_rate=4000\<close>.
\<close>

definition resample_data ::
  "parser \<Rightarrow> (real \<Rightarrow> string) \<Rightarrow> resampler \<Rightarrow> int \<Rightarrow> fs \<Rightarrow> error option \<times> fs" where
  "resample_data parse fmt self resample_size fs =
     (case remove_if_exists fs (out_path (data_path self) resample_size) of
        Inl e \<Rightarrow> (Some e, fs)
      | Inr fs1 \<Rightarrow>
          if dataset self = ''kbm'' then resample_data_kbm parse fmt self resample_size 4000 fs1
          else resample_data_bearing parse fmt self resample_size fs1)"

subsection \<open>Functions used in the proofs\<close>

text \<open>
  \<open>window_sizes L n\<close> is \<open>section_sizes L n\<close> without its leading 0, and \<open>chop\<close>
  cuts a list into consecutive pieces of given lengths.
\<close>

definition window_sizes :: "nat \<Rightarrow> nat \<Rightarrow> nat list" where
  "window_sizes L n = replicate (L mod n) (L div n + 1) @ replicate (n - L mod n) (L div n)"

fun chop :: "nat list \<Rightarrow> 'a list \<Rightarrow> 'a list list" where
  "chop [] xs = []"
| "chop (n # ns) xs = take n xs # chop ns (drop n xs)"

text \<open>
  \<open>table_lines\<close> are the lines of the file at a path (none when there is no file),
  and \<open>append_lines\<close> is the effect of appending lines to it. \<open>chunk_rows\<close>,
  \<open>bearing_rows\<close> and \<open>kbm_rows\<close> follow the three loops and collect the rows that are
  written until the first exception.
\<close>

definition is_dir :: "fs \<Rightarrow> string \<Rightarrow> bool" where
  "is_dir fs path = (case fs path of Some (Dir _) \<Rightarrow> True | _ \<Rightarrow> False)"

definition table_lines :: "fs \<Rightarrow> string \<Rightarrow> string list" where
  "table_lines fs path = (case fs path of Some (File ls) \<Rightarrow> ls | _ \<Rightarrow> [])"

definition append_lines :: "fs \<Rightarrow> string \<Rightarrow> string list \<Rightarrow> fs" where
  "append_lines fs path ls =
     (if ls = [] then fs else fs(path \<mapsto> File (table_lines fs path @ ls)))"

fun chunk_rows :: "int \<Rightarrow> frame list \<Rightarrow> error option \<times> cell list list" where
  "chunk_rows width [] = (None, [])"
| "chunk_rows width (c # cs) =
     (case summary_row width c of
        Inl e \<Rightarrow> (Some e, [])
      | Inr row \<Rightarrow> (case chunk_rows width cs of (e, rs) \<Rightarrow> (e, row # rs)))"

fun bearing_rows ::
  "parser \<Rightarrow> fs \<Rightarrow> string \<Rightarrow> int \<Rightarrow> string list \<Rightarrow> error option \<times> cell list list" where
  "bearing_rows parse fs path n [] = (None, [])"
| "bearing_rows parse fs path n (file_name # files) =
     (case read_csv parse fs (path @ ''/'' @ file_name) (CHR 0x09) False of
        Inl e \<Rightarrow> (Some e, [])
      | Inr df \<Rightarrow>
          (case array_split_df df n of
             Inl e \<Rightarrow> (Some e, [])
           | Inr dfs \<Rightarrow>
               (case chunk_rows 4 dfs of
                  (Some e, rs) \<Rightarrow> (Some e, rs)
                | (None, rs) \<Rightarrow>
                    (case bearing_rows parse fs path n files of (e, rs') \<Rightarrow> (e, rs @ rs')))))"

fun kbm_rows :: "int \<Rightarrow> int \<Rightarrow> frame list \<Rightarrow> error option \<times> cell list list" where
  "kbm_rows width n [] = (None, [])"
| "kbm_rows width n (m # ms) =
     (case array_split_df m n of
        Inl e \<Rightarrow> (Some e, [])
      | Inr dfs \<Rightarrow>
          (case chunk_rows width dfs of
             (Some e, rs) \<Rightarrow> (Some e, rs)
           | (None, rs) \<Rightarrow> (case kbm_rows width n ms of (e, rs') \<Rightarrow> (e, rs @ rs'))))"

text \<open>
  The rows of one recording (one bearing file, one KBM measurement) until the first
  exception: the body of the outer loops.
\<close>

definition frame_rows :: "int \<Rightarrow> int \<Rightarrow> frame \<Rightarrow> error option \<times> cell list list" where
  "frame_rows width n df =
     (case array_split_df df n of
        Inl e \<Rightarrow> (Some e, [])
      | Inr dfs \<Rightarrow> chunk_rows width dfs)"

definition file_rows ::
  "parser \<Rightarrow> fs \<Rightarrow> string \<Rightarrow> int \<Rightarrow> string \<Rightarrow> error option \<times> cell list list" where
  "file_rows parse fs path n file_name =
     (case read_csv parse fs (path @ ''/'' @ file_name) (CHR 0x09) False of
        Inl e \<Rightarrow> (Some e, [])
      | Inr df \<Rightarrow> frame_rows 4 n df)"

text \<open>The windows of a frame and the reduced row of a window, when nothing fails.\<close>

definition windows :: "frame \<Rightarrow> int \<Rightarrow> frame list" where
  "windows df n =
     map (\<lambda>p. df\<lparr>rows := p\<rparr>) (chop (window_sizes (length (rows df)) (nat n)) (rows df))"

definition mean_abs_row :: "frame \<Rightarrow> cell list" where
  "mean_abs_row w = df_mean (w\<lparr>rows := map (map cell_abs) (rows w)\<rparr>)"

subsection \<open>A parser and a printer for the worked examples\<close>

text \<open>
  The examples below need some \<open>parse\<close> and \<open>fmt\<close>; no theorem about the resampler
  depends on them. \<open>demo_parse\<close> reads lines whose fields are small integers: blank
  lines are skipped, the first line gives the number of columns, a line with more
  fields is an error, a line with fewer is filled with missing values, and a file
  without a line is an error. \<open>demo_fmt\<close> prints an integral value the way Python
  prints the float (\<^verbatim>\<open>2.0\<close>).
\<close>

fun split_on :: "char \<Rightarrow> string \<Rightarrow> string list" where
  "split_on sep [] = [[]]"
| "split_on sep (c # cs) =
     (if c = sep then [] # split_on sep cs
      else (case split_on sep cs of f # fs \<Rightarrow> (c # f) # fs | [] \<Rightarrow> [[c]]))"

definition demo_cell :: "string \<Rightarrow> cell" where
  "demo_cell s =
     (case map_of [(''0'', 0), (''1'', 1), (''2'', 2), (''3'', 3), (''4'', 4), (''5'', 5),
                   (''-1'', - 1), (''-2'', - 2), (''-3'', - 3), (''-4'', - 4), (''-5'', - 5)] s of
        Some x \<Rightarrow> Num x
      | None \<Rightarrow> if s = [] then NaN else Obj s)"

fun is_obj :: "cell \<Rightarrow> bool" where
  "is_obj (Obj s) = True"
| "is_obj c = False"

definition demo_parse :: parser where
  "demo_parse txt sep header =
     (let ls = filter (\<lambda>line. line \<noteq> []) txt;
          width = (case ls of [] \<Rightarrow> 0 | line # _ \<Rightarrow> length (split_on sep line));
          body = (if header then tl ls else ls);
          rs = map (\<lambda>line. map demo_cell (split_on sep line)) body
      in if ls = [] \<or> list_ex (\<lambda>r. width < length r) rs then Inl ValueError
         else Inr \<lparr>dtypes = map (\<lambda>i. if list_ex (\<lambda>r. is_obj (cell_at r i)) rs then Object
                                    else Numeric) [0..<width],
                   rows = map (\<lambda>r. r @ replicate (width - length r) NaN) rs\<rparr>)"

definition demo_fmt :: "real \<Rightarrow> string" where
  "demo_fmt x = (if x = of_int \<lfloor>x\<rfloor> then str_int \<lfloor>x\<rfloor> @ ''.0'' else ''?'')"

definition tsv :: "string list \<Rightarrow> string" where
  "tsv xs = join [CHR 0x09] xs"

definition two_files :: fs where
  "two_files =
     (\<lambda>p. None)(''data/a'' \<mapsto> File [tsv [''1'', ''-1'', ''1'', ''1''], tsv [''3'', ''3'', ''-3'', ''3'']],
                ''data/b'' \<mapsto> File [tsv [''5'', ''5'', ''5'', ''5''], tsv [''-5'', ''5'', ''5'', ''5'']])"

definition two_files_listed :: "string list \<Rightarrow> fs" where
  "two_files_listed names = two_files(''data'' \<mapsto> Dir names)"

text \<open>A directory with one recording of three channels.\<close>

definition three_channels :: fs where
  "three_channels =
     (\<lambda>p. None)(''data'' \<mapsto> Dir [''a''], ''data/a'' \<mapsto> File [tsv [''1'', ''-2'', ''3'']])"

text \<open>A KBM table with a header line and 4001 equal samples of two channels.\<close>

definition kbm_table :: fs where
  "kbm_table = (\<lambda>p. None)(''kbm_4000.csv'' \<mapsto> File (''x,y'' # replicate 4001 ''3,-4''))"

section \<open>Splitting into windows\<close>

lemma length_cumsum: "length (cumsum a ss) = length ss"
  by (induction ss arbitrary: a) auto

lemma slices_chop:
  "map (\<lambda>i. py_slice ((a # cumsum a ss) ! i) (cumsum a ss ! i) xs) [0..<length ss]
     = chop ss (drop a xs)"
proof (induction ss arbitrary: a)
  case Nil
  show ?case by simp
next
  case (Cons s ss)
  have "[0..<length (s # ss)] = 0 # map Suc [0..<length ss]"
    by (simp add: upt_conv_Cons map_Suc_upt del: upt_Suc)
  then have "map (\<lambda>i. py_slice ((a # cumsum a (s # ss)) ! i) (cumsum a (s # ss) ! i) xs)
          [0..<length (s # ss)]
      = py_slice a (a + s) xs
        # map (\<lambda>i. py_slice (((a + s) # cumsum (a + s) ss) ! i) (cumsum (a + s) ss ! i) xs)
            [0..<length ss]"
    by (simp add: comp_def del: upt_Suc)
  also have "\<dots> = take s (drop a xs) # chop ss (drop (a + s) xs)"
    by (simp only: Cons.IH) (simp add: py_slice_def)
  also have "\<dots> = chop (s # ss) (drop a xs)"
    by (simp add: add.commute)
  finally show ?case .
qed

lemma concat_chop: "concat (chop ss xs) = take (sum_list ss) xs"
  by (induction ss arbitrary: xs) (auto simp: take_add)

lemma length_chop: "length (chop ss xs) = length ss"
  by (induction ss arbitrary: xs) auto

lemma lengths_chop: "sum_list ss \<le> length xs \<Longrightarrow> map length (chop ss xs) = ss"
  by (induction ss arbitrary: xs) auto

lemma section_sizes_window: "section_sizes L n = 0 # window_sizes L n"
  by (simp add: section_sizes_def window_sizes_def Let_def)

lemma length_window_sizes: "0 < n \<Longrightarrow> length (window_sizes L n) = n"
  by (simp add: window_sizes_def less_imp_le)

lemma sum_window_sizes: "0 < n \<Longrightarrow> sum_list (window_sizes L n) = L"
proof -
  assume n: "0 < n"
  have "L mod n \<le> n" using n by (simp add: less_imp_le)
  then have "(L mod n) * (L div n + 1) + (n - L mod n) * (L div n) = n * (L div n) + L mod n"
    by (simp add: algebra_simps diff_mult_distrib flip: add_mult_distrib) 
  then show ?thesis
    by (simp add: window_sizes_def sum_list_replicate)
qed


lemma array_split_chop:
  assumes "0 < n"
  shows "array_split xs n = Inr (chop (window_sizes (length xs) (nat n)) xs)"
proof -
  have len: "length (window_sizes (length xs) (nat n)) = nat n"
    using assms by (simp add: length_window_sizes)
  have "map (\<lambda>i. py_slice ((0 # cumsum 0 (window_sizes (length xs) (nat n))) ! i)
                 (cumsum 0 (window_sizes (length xs) (nat n)) ! i) xs) [0..<nat n]
        = chop (window_sizes (length xs) (nat n)) (drop 0 xs)"
    using slices_chop [of 0 "window_sizes (length xs) (nat n)" xs] by (simp only: len)
  then show ?thesis
    using assms by (simp add: array_split_def section_sizes_window)
qed



section \<open>Reducing a window, in exact arithmetic\<close>

lemma sum_list_all_zero: "\<forall>r\<in>set xs. f r = (0::real) \<Longrightarrow> sum_list (map f xs) = 0"
  by (induction xs) auto

lemma numbers_Num: "numbers (map Num ys) = ys"
  by (induction ys) auto

lemma col_mean_Num: "ys \<noteq> [] \<Longrightarrow> col_mean (map Num ys) = Num (sum_list ys / real (length ys))"
  by (simp add: col_mean_def numbers_Num)

lemma column_abs_Num:
  assumes "\<forall>r\<in>set xss. i < length r"
  shows "column (df\<lparr>rows := map (map cell_abs) (map (map Num) xss)\<rparr>) i = map Num (map (\<lambda>r. \<bar>r ! i\<bar>) xss)"
  using assms by (induction xss) (auto simp: column_def cell_at_def)

lemma df_mean_abs_Num:
  assumes "rows w = map (map Num) xss" and "xss \<noteq> []"
    and "\<forall>r\<in>set xss. length r = ncols w" and "i < ncols w"
  shows "df_mean (w\<lparr>rows := map (map cell_abs) (rows w)\<rparr>) ! i
           = Num (sum_list (map (\<lambda>r. \<bar>r ! i\<bar>) xss) / real (length xss))"
proof -
  have "\<forall>r\<in>set xss. i < length r" using assms by simp
  then have "column (w\<lparr>rows := map (map cell_abs) (map (map Num) xss)\<rparr>) i
        = map Num (map (\<lambda>r. \<bar>r ! i\<bar>) xss)"
    by (rule column_abs_Num)
  moreover have "map (\<lambda>r. \<bar>r ! i\<bar>) xss \<noteq> []" using assms(2) by simp
  ultimately show ?thesis
    using assms(1,4) col_mean_Num [of "map (\<lambda>r. \<bar>r ! i\<bar>) xss"]
    by (simp add: df_mean_def ncols_def)
qed

text \<open>
  In exact arithmetic, a window that is not empty and whose cells are the numbers
  \<open>xss\<close> is reduced to a row that holds, for every channel \<open>i\<close>, the arithmetic mean of
  the absolute values of channel \<open>i\<close>; a window of zeros gives a row of zeros and a
  window of one sample gives the absolute values of that sample. This is a fact about
  the real numbers of the embedding. The code computes the same expression in
  \<^verbatim>\<open>int64\<close> and \<^verbatim>\<open>float64\<close>, where the mean of 0.1 and 0.2 is a rounded value and
  \<^verbatim>\<open>abs\<close> of the least \<^verbatim>\<open>int64\<close> is negative, so the lemma does not settle claim C4,
  which is about the numbers the code writes.
\<close>

lemma summary_row_mean_abs_exact:
  assumes "rows w = map (map Num) xss" and "xss \<noteq> []"
    and "\<forall>r\<in>set xss. length r = ncols w"
    and "Object \<notin> set (dtypes w)" and "width = int (ncols w)"
  shows "\<exists>row. summary_row width w = Inr row \<and> length row = ncols w
           \<and> (\<forall>i<ncols w. row ! i = Num (sum_list (map (\<lambda>r. \<bar>r ! i\<bar>) xss) / real (length xss)))
           \<and> ((\<forall>r\<in>set xss. \<forall>x\<in>set r. x = 0) \<longrightarrow> row = replicate (ncols w) (Num 0))
           \<and> (\<forall>r. xss = [r] \<longrightarrow> row = map (\<lambda>x. Num \<bar>x\<bar>) r)"
proof -
  define row where "row = df_mean (w\<lparr>rows := map (map cell_abs) (rows w)\<rparr>)"
  have len: "length row = ncols w"
    by (simp add: row_def df_mean_def ncols_def)
  have res: "summary_row width w = Inr row"
    using assms(4,5) len by (simp add: summary_row_def df_abs_def reshape_row_def row_def)
  have val: "row ! i = Num (sum_list (map (\<lambda>r. \<bar>r ! i\<bar>) xss) / real (length xss))"
    if "i < ncols w" for i
    unfolding row_def using assms(1,2,3) that by (rule df_mean_abs_Num)
  have zero: "row = replicate (ncols w) (Num 0)" if z: "\<forall>r\<in>set xss. \<forall>x\<in>set r. x = 0"
  proof (rule nth_equalityI)
    show "length row = length (replicate (ncols w) (Num 0))" using len by simp
  next
    fix i assume "i < length row"
    then have i: "i < ncols w" using len by simp
    have "\<forall>r\<in>set xss. \<bar>r ! i\<bar> = 0"
      using z assms(3) i by (metis abs_zero nth_mem)
    then have "sum_list (map (\<lambda>r. \<bar>r ! i\<bar>) xss) = 0" by (rule sum_list_all_zero)
    then show "row ! i = replicate (ncols w) (Num 0) ! i"
      using val [OF i] i by simp
  qed
  have single: "row = map (\<lambda>x. Num \<bar>x\<bar>) r" if s: "xss = [r]" for r
  proof (rule nth_equalityI)
    show "length row = length (map (\<lambda>x. Num \<bar>x\<bar>) r)" using len assms(3) s by simp
  next
    fix i assume "i < length row"
    then have i: "i < ncols w" using len by simp
    then have "i < length r" using assms(3) s by simp
    then show "row ! i = map (\<lambda>x. Num \<bar>x\<bar>) r ! i"
      using val [OF i] s by simp
  qed
  show ?thesis using res len val zero single by blast
qed


lemma summary_row_mean_abs_example:
  "summary_row 2 \<lparr>dtypes = [Numeric, Numeric], rows = [[Num 1, Num (- 2)], [Num (- 3), Num 4]]\<rparr>
     = Inr [Num 2, Num 3]"
proof -
  let ?w = "\<lparr>dtypes = [Numeric, Numeric], rows = [[Num 1, Num (- 2)], [Num (- 3), Num 4]]\<rparr>"
  let ?xss = "[[1, - 2], [- 3, 4::real]]"
  have h1: "rows ?w = map (map Num) ?xss" by simp
  have h2: "?xss \<noteq> []" by simp
  have h3: "\<forall>r\<in>set ?xss. length r = ncols ?w" by (simp add: ncols_def)
  have h4: "Object \<notin> set (dtypes ?w)" by simp
  have h5: "(2::int) = int (ncols ?w)" by (simp add: ncols_def)
  obtain row where r: "summary_row 2 ?w = Inr row" "length row = ncols ?w"
    and v: "\<forall>i<ncols ?w. row ! i = Num (sum_list (map (\<lambda>r. \<bar>r ! i\<bar>) ?xss) / real (length ?xss))"
    using summary_row_mean_abs_exact [OF h1 h2 h3 h4 h5] by blast
  have "row ! 0 = Num 2" and "row ! 1 = Num 3"
    using v by (simp_all add: ncols_def)
  moreover have "length row = 2" using r(2) by (simp add: ncols_def)
  ultimately have "row = [Num 2, Num 3]"
    by (intro nth_equalityI) (auto simp: less_Suc_eq numeral_2_eq_2)
  then show ?thesis using r(1) by simp
qed

section \<open>The dispatch and the guard\<close>

lemma py_in_iff: "py_in sub s \<longleftrightarrow> (\<exists>p t. s = p @ sub @ t)"
proof (induction s)
  case Nil
  show ?case by auto
next
  case (Cons c cs)
  show ?case
  proof
    assume "py_in sub (c # cs)"
    then consider "prefix sub (c # cs)" | "py_in sub cs" by auto
    then show "\<exists>p t. c # cs = p @ sub @ t"
    proof cases
      case 1
      then obtain t where "c # cs = sub @ t" by (auto simp: prefix_def)
      then have "c # cs = [] @ sub @ t" by simp
      then show ?thesis by blast
    next
      case 2
      then obtain p t where "cs = p @ sub @ t" using Cons.IH by auto
      then have "c # cs = (c # p) @ sub @ t" by simp
      then show ?thesis by blast
    qed
  next
    assume "\<exists>p t. c # cs = p @ sub @ t"
    then obtain p t where e: "c # cs = p @ sub @ t" by auto
    show "py_in sub (c # cs)"
    proof (cases p)
      case Nil
      then have "prefix sub (c # cs)" using e by (simp add: prefix_def)
      then show ?thesis by simp
    next
      case (Cons a p')
      then have "cs = p' @ sub @ t" using e by simp
      then have "py_in sub cs" using Cons.IH by auto
      then show ?thesis by simp
    qed
  qed
qed

text \<open>
  Claim C9. \<^verbatim>\<open>resample_data\<close> runs the KBM strategy exactly when \<^verbatim>\<open>kbm\<close> occurs
  somewhere in the path given to the constructor, and the bearing strategy otherwise.
  The choice is made in \<^verbatim>\<open>__init__\<close>: a later change of \<^verbatim>\<open>data_path\<close> (the second
  equation) does not change it, and neither the file system nor any other input
  enters the condition.
\<close>

theorem resample_data_dispatch:
  "resample_data parse fmt (init path n) resample_size fs =
     (case remove_if_exists fs (out_path path resample_size) of
        Inl e \<Rightarrow> (Some e, fs)
      | Inr fs1 \<Rightarrow>
          if (\<exists>p t. path = p @ ''kbm'' @ t)
          then resample_data_kbm parse fmt (init path n) resample_size 4000 fs1
          else resample_data_bearing parse fmt (init path n) resample_size fs1)
   \<and> resample_data parse fmt ((init path n)\<lparr>data_path := q\<rparr>) resample_size fs =
     (case remove_if_exists fs (out_path q resample_size) of
        Inl e \<Rightarrow> (Some e, fs)
      | Inr fs1 \<Rightarrow>
          if (\<exists>p t. path = p @ ''kbm'' @ t)
          then resample_data_kbm parse fmt ((init path n)\<lparr>data_path := q\<rparr>) resample_size 4000 fs1
          else resample_data_bearing parse fmt ((init path n)\<lparr>data_path := q\<rparr>) resample_size fs1)"
  by (simp add: resample_data_def init_def py_in_iff split: sum.splits)

text \<open>
  Called directly with a window count equal to the sampling rate, the KBM strategy
  ends with the failed assertion of line 63 before it touches a file.
\<close>

lemma resample_data_kbm_guard:
  "resample_data_kbm parse fmt self sampling_rate sampling_rate fs = (Some AssertionError, fs)"
  by (simp add: resample_data_kbm_def)

text \<open>
  \<^verbatim>\<open>resample_data\<close>, which is how the strategy is called, removes the file of the
  window count (lines 28 and 29) before it calls the strategy.
\<close>

lemma resample_data_removes_first:
  "fs (out_path (data_path self) 4000) = Some (File old) \<Longrightarrow> dataset self = ''kbm'' \<Longrightarrow>
   resample_data parse fmt self 4000 fs
     = (Some AssertionError, fs(out_path (data_path self) 4000 := None))"
  by (simp add: resample_data_def remove_if_exists_def os_path_exists_def os_remove_def
      resample_data_kbm_def)

lemma str_int_4000: "str_int 4000 = ''4000''"
  by (simp add: str_int_def digits10.simps)

lemma out_path_4000: "out_path path 4000 = path @ ''_4000.csv''"
  by (simp add: out_path_def str_int_4000)

text \<open>
  Claim C2 says that a call of the KBM strategy with the window count 4000 fails and
  leaves a file that exists for that window count unchanged. The file of the window
  count 4000 is \<^verbatim>\<open><data_path>_4000.csv\<close>, the table the strategy reads. A run of
  \<^verbatim>\<open>resample_data(4000)\<close> on a KBM path ends with the failed assertion and with
  that file removed, whatever it held; the strategy called directly on the same file
  system ends with the same exception and removes nothing, since its own removal
  (lines 66 to 68) comes after the assertion.
\<close>

theorem resample_data_4000_removes_table:
  "resample_data parse fmt \<lparr>data_path = path, dataset = ''kbm'', num_features = k\<rparr> 4000
      (fs(path @ ''_4000.csv'' \<mapsto> File table))
     = (Some AssertionError, fs(path @ ''_4000.csv'' := None))
   \<and> resample_data_kbm parse fmt \<lparr>data_path = path, dataset = ''kbm'', num_features = k\<rparr> 4000 4000
      (fs(path @ ''_4000.csv'' \<mapsto> File table))
     = (Some AssertionError, fs(path @ ''_4000.csv'' \<mapsto> File table))"
  by (simp add: resample_data_def remove_if_exists_def os_path_exists_def os_remove_def
      resample_data_kbm_def out_path_4000)

section \<open>The truncation of the KBM table\<close>

text \<open>
  Line 74 is \<^verbatim>\<open>df.iloc[:-(len(df) % sampling_rate)]\<close>. When the remainder is not 0
  the slice drops that many rows from the end. When the length is a multiple of the
  sampling rate the slice is \<^verbatim>\<open>df.iloc[:0]\<close>: no row is left.
\<close>

lemma kbm_truncate_multiple:
  "sampling_rate \<noteq> 0 \<Longrightarrow> int (length (rows df)) mod sampling_rate = 0 \<Longrightarrow>
   kbm_truncate df sampling_rate = Inr (df\<lparr>rows := []\<rparr>)"
  by (simp add: kbm_truncate_def iloc_to_def)

lemma kbm_truncate_remainder:
  assumes "0 < sampling_rate" and "int (length (rows df)) mod sampling_rate \<noteq> 0"
  shows "kbm_truncate df sampling_rate
     = Inr (df\<lparr>rows := take (length (rows df) - length (rows df) mod nat sampling_rate) (rows df)\<rparr>)"
proof -
  let ?L = "length (rows df)"
  have pos: "0 < int ?L mod sampling_rate"
    using assms by (simp add: order_less_le)
  have "int ?L mod sampling_rate = int (?L mod nat sampling_rate)"
    using assms(1) by (simp add: nat_mod_distrib zmod_int)
  then have "nat (int ?L + - (int ?L mod sampling_rate)) = ?L - ?L mod nat sampling_rate"
    by simp
  then show ?thesis
    using assms(1) pos by (simp add: kbm_truncate_def iloc_to_def)
qed

lemma array_split_nonpos: "n \<le> 0 \<Longrightarrow> array_split xs n = Inl ValueError"
  by (simp add: array_split_def)

text \<open>
  Claim C1 says that a table whose length is a multiple of the sampling rate loses no
  row and gives \<open>L div R\<close> measurements. For 8000 rows and the sampling rate 4000
  the code keeps no row, and \<^verbatim>\<open>array_split\<close> is then asked for 0 sections and
  raises \<^verbatim>\<open>ValueError\<close>: no measurement is processed.
\<close>

theorem kbm_exact_multiple_drops_all:
  "kbm_truncate \<lparr>dtypes = ds, rows = replicate 8000 r\<rparr> 4000 = Inr \<lparr>dtypes = ds, rows = []\<rparr>
   \<and> kbm_measurements \<lparr>dtypes = ds, rows = replicate 8000 r\<rparr> 4000 = Inl ValueError"
  by (simp add: kbm_measurements_def kbm_truncate_multiple array_split_df_def array_split_nonpos)

lemma array_split_one: "array_split xs 1 = Inr [xs]"
  by (simp add: array_split_def section_sizes_def py_slice_def)

text \<open>
  Claim C10 ends with: for every sampling rate other than 4000 the measurements are
  not chunks of \<^verbatim>\<open>sampling_rate\<close> rows. With the sampling rate 4001 and a table of
  4002 rows, one row is cut and the 4001 rows left are one measurement.
\<close>

theorem kbm_measurements_4001_counterexample:
  "kbm_measurements \<lparr>dtypes = [Numeric], rows = replicate 4002 [Num 1]\<rparr> 4001
     = Inr [\<lparr>dtypes = [Numeric], rows = replicate 4001 [Num 1]\<rparr>]
   \<and> length (rows \<lparr>dtypes = [Numeric], rows = replicate 4001 [Num 1]\<rparr>) = nat 4001
   \<and> (4001::int) \<noteq> 4000"
  by (simp add: kbm_measurements_def kbm_truncate_def iloc_to_def array_split_df_def array_split_one)

section \<open>The loops and the lines they write\<close>

text \<open>
  As long as the output path is not a directory, each loop appends to the output file
  the lines of the rows that its row-collecting counterpart returns, and ends with
  the same exception.
\<close>

lemma table_lines_upd: "table_lines (fs(p \<mapsto> File ls)) p = ls"
  by (simp add: table_lines_def)

lemma append_lines_Nil: "append_lines fs p [] = fs"
  by (simp add: append_lines_def)

lemma append_lines_append:
  "append_lines (append_lines fs p a) p b = append_lines fs p (a @ b)"
  by (simp add: append_lines_def table_lines_upd)

lemma append_lines_other: "q \<noteq> p \<Longrightarrow> append_lines fs p ls q = fs q"
  by (simp add: append_lines_def)

lemma is_dir_append_lines: "\<not> is_dir fs p \<Longrightarrow> \<not> is_dir (append_lines fs p ls) p"
  by (simp add: append_lines_def is_dir_def)

lemma table_lines_append_lines:
  "\<not> is_dir fs p \<Longrightarrow> table_lines (append_lines fs p ls) p = table_lines fs p @ ls"
  by (simp add: append_lines_def table_lines_upd)

lemma to_csv_append:
  "\<not> is_dir fs p \<Longrightarrow> to_csv fmt fs p row sep = Inr (append_lines fs p [csv_line fmt sep row])"
  by (auto simp: to_csv_def append_lines_def table_lines_def is_dir_def split: option.splits node.splits)

lemma write_chunks_rows:
  "\<not> is_dir fs p \<Longrightarrow>
   write_chunks fmt p width dfs fs
     = (fst (chunk_rows width dfs),
        append_lines fs p (map (csv_line fmt CHR '';'') (snd (chunk_rows width dfs))))"
proof (induction dfs arbitrary: fs)
  case Nil
  show ?case by (simp add: append_lines_Nil)
next
  case (Cons c cs)
  show ?case
  proof (cases "summary_row width c")
    case (Inl e)
    then show ?thesis by (simp add: append_lines_Nil)
  next
    case (Inr row)
    let ?fs' = "append_lines fs p [csv_line fmt CHR '';'' row]"
    have nd: "\<not> is_dir ?fs' p" using Cons.prems by (simp add: is_dir_append_lines)
    have "write_chunks fmt p width (c # cs) fs = write_chunks fmt p width cs ?fs'"
      using Inr Cons.prems by (simp add: to_csv_append)
    also have "\<dots> = (fst (chunk_rows width cs),
        append_lines ?fs' p (map (csv_line fmt CHR '';'') (snd (chunk_rows width cs))))"
      using nd by (rule Cons.IH)
    finally show ?thesis
      using Inr by (simp add: append_lines_append split: prod.splits)
  qed
qed

lemma read_csv_cong: "fs' q = fs q \<Longrightarrow> read_csv parse fs' q sep h = read_csv parse fs q sep h"
  by (simp add: read_csv_def)

lemma entry_not_out: "path @ CHR ''/'' # name \<noteq> out_path path n"
  by (simp add: out_path_def)

lemma path_not_out: "path \<noteq> out_path path n"
  by (simp add: out_path_def)

lemma bearing_rows_cong:
  "(\<And>name. name \<in> set names \<Longrightarrow> fs' (path @ ''/'' @ name) = fs (path @ ''/'' @ name)) \<Longrightarrow>
   bearing_rows parse fs' path n names = bearing_rows parse fs path n names"
proof (induction names)
  case Nil
  show ?case by simp
next
  case (Cons name names)
  have "read_csv parse fs' (path @ ''/'' @ name) (CHR 0x09) False
      = read_csv parse fs (path @ ''/'' @ name) (CHR 0x09) False"
    using Cons.prems by (simp add: read_csv_def)
  moreover have "bearing_rows parse fs' path n names = bearing_rows parse fs path n names"
    using Cons.prems by (intro Cons.IH) simp
  ultimately show ?case by (simp split: sum.splits prod.splits option.splits)
qed

lemma bearing_files_rows:
  "\<not> is_dir fs (out_path path n) \<Longrightarrow>
   bearing_files parse fmt path n names fs
     = (fst (bearing_rows parse fs path n names),
        append_lines fs (out_path path n)
          (map (csv_line fmt CHR '';'') (snd (bearing_rows parse fs path n names))))"
proof (induction names arbitrary: fs)
  case Nil
  show ?case by (simp add: append_lines_Nil)
next
  case (Cons name names)
  let ?out = "out_path path n"
  show ?case
  proof (cases "read_csv parse fs (path @ ''/'' @ name) (CHR 0x09) False")
    case (Inl e)
    then show ?thesis by (simp add: append_lines_Nil)
  next
    case df: (Inr df)
    show ?thesis
    proof (cases "array_split_df df n")
      case (Inl e)
      then show ?thesis using df by (simp add: append_lines_Nil)
    next
      case dfs: (Inr dfs)
      obtain e rs where cr: "chunk_rows 4 dfs = (e, rs)" by (cases "chunk_rows 4 dfs")
      let ?fs' = "append_lines fs ?out (map (csv_line fmt CHR '';'') rs)"
      have wc: "write_chunks fmt ?out 4 dfs fs = (e, ?fs')"
        using Cons.prems cr by (simp add: write_chunks_rows)
      show ?thesis
      proof (cases e)
        case (Some err)
        then show ?thesis using df dfs wc cr by simp
      next
        case None
        have nd: "\<not> is_dir ?fs' ?out" using Cons.prems by (simp add: is_dir_append_lines)
        have same: "bearing_rows parse ?fs' path n names = bearing_rows parse fs path n names"
          by (rule bearing_rows_cong) (simp add: append_lines_other entry_not_out)
        have "bearing_files parse fmt path n (name # names) fs
            = bearing_files parse fmt path n names ?fs'"
          using df dfs wc None by simp
        also have "\<dots> = (fst (bearing_rows parse ?fs' path n names),
            append_lines ?fs' ?out
              (map (csv_line fmt CHR '';'') (snd (bearing_rows parse ?fs' path n names))))"
          using nd by (rule Cons.IH)
        finally show ?thesis
          using df dfs cr None same by (simp add: append_lines_append split: prod.splits)
      qed
    qed
  qed
qed

lemma kbm_loop_rows:
  "\<not> is_dir fs p \<Longrightarrow>
   kbm_loop fmt p width n ms fs
     = (fst (kbm_rows width n ms),
        append_lines fs p (map (csv_line fmt CHR '';'') (snd (kbm_rows width n ms))))"
proof (induction ms arbitrary: fs)
  case Nil
  show ?case by (simp add: append_lines_Nil)
next
  case (Cons m ms)
  show ?case
  proof (cases "array_split_df m n")
    case (Inl e)
    then show ?thesis by (simp add: append_lines_Nil)
  next
    case dfs: (Inr dfs)
    obtain e rs where cr: "chunk_rows width dfs = (e, rs)" by (cases "chunk_rows width dfs")
    let ?fs' = "append_lines fs p (map (csv_line fmt CHR '';'') rs)"
    have wc: "write_chunks fmt p width dfs fs = (e, ?fs')"
      using Cons.prems cr by (simp add: write_chunks_rows)
    show ?thesis
    proof (cases e)
      case (Some err)
      then show ?thesis using dfs wc cr by simp
    next
      case None
      have nd: "\<not> is_dir ?fs' p" using Cons.prems by (simp add: is_dir_append_lines)
      have "kbm_loop fmt p width n (m # ms) fs = kbm_loop fmt p width n ms ?fs'"
        using dfs wc None by simp
      also have "\<dots> = (fst (kbm_rows width n ms),
          append_lines ?fs' p (map (csv_line fmt CHR '';'') (snd (kbm_rows width n ms))))"
        using nd by (rule Cons.IH)
      finally show ?thesis
        using dfs cr None by (simp add: append_lines_append split: prod.splits)
    qed
  qed
qed

lemma remove_if_exists_file:
  "\<not> is_dir fs p \<Longrightarrow> remove_if_exists fs p = Inr (fs(p := None))"
  by (cases "fs p") (auto simp: remove_if_exists_def os_path_exists_def os_remove_def is_dir_def
      split: node.splits)

lemma remove_if_exists_dir:
  "is_dir fs p \<Longrightarrow> remove_if_exists fs p = Inl OSError"
  by (cases "fs p") (auto simp: remove_if_exists_def os_path_exists_def os_remove_def is_dir_def
      split: node.splits)

section \<open>Rebuilding the output of the bearing strategy\<close>

lemma os_scandir_cong: "fs' q = fs q \<Longrightarrow> os_scandir fs' q = os_scandir fs q"
  by (simp add: os_scandir_def)

lemma resample_data_bearing_rows:
  assumes "\<not> is_dir fs (out_path (data_path self) n)"
  shows "resample_data_bearing parse fmt self n fs =
     (case os_scandir fs (data_path self) of
        Inl e \<Rightarrow> (Some e, fs)
      | Inr names \<Rightarrow>
          (fst (bearing_rows parse fs (data_path self) n names),
           append_lines fs (out_path (data_path self) n)
             (map (csv_line fmt CHR '';'') (snd (bearing_rows parse fs (data_path self) n names)))))"
  using assms by (simp add: resample_data_bearing_def bearing_files_rows split: sum.splits)

lemma bearing_rows_removed:
  "bearing_rows parse (fs(out_path path n := None)) path n names = bearing_rows parse fs path n names"
  by (rule bearing_rows_cong) (simp add: entry_not_out)

lemma resample_data_bearing_run:
  assumes "dataset self \<noteq> ''kbm''" and "\<not> is_dir fs (out_path (data_path self) n)"
  shows "resample_data parse fmt self n fs =
     (case os_scandir fs (data_path self) of
        Inl e \<Rightarrow> (Some e, fs(out_path (data_path self) n := None))
      | Inr names \<Rightarrow>
          (fst (bearing_rows parse fs (data_path self) n names),
           append_lines (fs(out_path (data_path self) n := None)) (out_path (data_path self) n)
             (map (csv_line fmt CHR '';'') (snd (bearing_rows parse fs (data_path self) n names)))))"
proof -
  let ?out = "out_path (data_path self) n"
  let ?fs1 = "fs(?out := None)"
  have nd: "\<not> is_dir ?fs1 ?out" by (simp add: is_dir_def)
  have sc: "os_scandir ?fs1 (data_path self) = os_scandir fs (data_path self)"
    by (rule os_scandir_cong) (simp add: path_not_out)
  have "resample_data parse fmt self n fs = resample_data_bearing parse fmt self n ?fs1"
    using assms by (simp add: resample_data_def remove_if_exists_file)
  then show ?thesis
    using nd sc by (simp add: resample_data_bearing_rows bearing_rows_removed split: sum.splits)
qed

lemma resample_data_dir:
  "is_dir fs (out_path (data_path self) n) \<Longrightarrow> resample_data parse fmt self n fs = (Some OSError, fs)"
  by (simp add: resample_data_def remove_if_exists_dir)

lemma resample_data_bearing_agree:
  assumes b: "dataset self \<noteq> ''kbm''"
    and eq: "\<And>q. q \<noteq> out_path (data_path self) n \<Longrightarrow> fsA q = fsB q"
    and a: "\<not> is_dir fsA (out_path (data_path self) n)"
    and c: "\<not> is_dir fsB (out_path (data_path self) n)"
  shows "resample_data parse fmt self n fsA = resample_data parse fmt self n fsB"
proof -
  let ?out = "out_path (data_path self) n"
  have same: "fsA(?out := None) = fsB(?out := None)"
    using eq by (auto simp: fun_eq_iff)
  have sc: "os_scandir fsA (data_path self) = os_scandir fsB (data_path self)"
    by (rule os_scandir_cong) (simp add: eq path_not_out)
  have rows: "bearing_rows parse fsA (data_path self) n names = bearing_rows parse fsB (data_path self) n names"
    for names
    by (rule bearing_rows_cong) (simp add: eq entry_not_out)
  show ?thesis
    using b a c by (simp add: resample_data_bearing_run same sc rows split: sum.splits)
qed

text \<open>
  Claim C5. A run of \<^verbatim>\<open>resample_data\<close> on a bearing path removes the output file of
  the window count (lines 28 and 29) before \<^verbatim>\<open>resample_data_bearing\<close> appends to
  it. So the result does not depend on what the output file held before; a second
  run on the file system the first run left gives the same exception, if any, and
  the same file system; and the output holds the lines of this run only.
\<close>

theorem bearing_rebuild_idempotent:
  assumes "dataset self \<noteq> ''kbm''"
  shows "resample_data parse fmt self n (fs(out_path (data_path self) n \<mapsto> File stale))
           = resample_data parse fmt self n (fs(out_path (data_path self) n := None))
       \<and> resample_data parse fmt self n (snd (resample_data parse fmt self n fs))
           = resample_data parse fmt self n fs
       \<and> (\<not> is_dir fs (out_path (data_path self) n) \<longrightarrow>
            table_lines (snd (resample_data parse fmt self n fs)) (out_path (data_path self) n)
              = (case os_scandir fs (data_path self) of
                   Inl e \<Rightarrow> []
                 | Inr names \<Rightarrow>
                     map (csv_line fmt CHR '';'') (snd (bearing_rows parse fs (data_path self) n names))))"
proof -
  let ?out = "out_path (data_path self) n"
  let ?run = "resample_data parse fmt self n"
  have stale: "?run (fs(?out \<mapsto> File stale)) = ?run (fs(?out := None))"
    by (rule resample_data_bearing_agree [OF assms]) (simp_all add: is_dir_def)
  have twice: "?run (snd (?run fs)) = ?run fs"
  proof (cases "is_dir fs ?out")
    case True
    then show ?thesis by (simp add: resample_data_dir)
  next
    case False
    have other: "snd (?run fs) q = fs q" if "q \<noteq> ?out" for q
      using that assms False
      by (simp add: resample_data_bearing_run append_lines_other split: sum.splits)
    have nd1: "\<not> is_dir (fs(?out := None)) ?out" by (simp add: is_dir_def)
    have nd: "\<not> is_dir (snd (?run fs)) ?out"
      using assms False nd1 is_dir_append_lines [OF nd1]
      by (simp add: resample_data_bearing_run split: sum.splits)
    show ?thesis
      by (rule resample_data_bearing_agree [OF assms other nd False])
  qed
  have lines: "table_lines (snd (?run fs)) ?out
      = (case os_scandir fs (data_path self) of
           Inl e \<Rightarrow> []
         | Inr names \<Rightarrow>
             map (csv_line fmt CHR '';'') (snd (bearing_rows parse fs (data_path self) n names)))"
    if nd: "\<not> is_dir fs ?out"
  proof -
    have nd1: "\<not> is_dir (fs(?out := None)) ?out" by (simp add: is_dir_def)
    have tl0: "table_lines (fs(?out := None)) ?out = []" by (simp add: table_lines_def)
    show ?thesis
      using nd assms tl0 table_lines_append_lines [OF nd1]
      by (simp add: resample_data_bearing_run split: sum.splits)
  qed
  show ?thesis using stale twice lines by blast
qed


subsection \<open>The worked example: two recordings of two samples\<close>

text \<open>
  The directory \<^verbatim>\<open>data\<close> holds the files \<^verbatim>\<open>a\<close> and \<^verbatim>\<open>b\<close>; with one window per
  file, the means of the absolute values are 2 for every channel of \<^verbatim>\<open>a\<close> and 5 for
  every channel of \<^verbatim>\<open>b\<close>.
\<close>

lemma str_int_1: "str_int 1 = ''1''"
  by (simp add: str_int_def digits10.simps)

lemma out_path_data_1: "out_path ''data'' 1 = ''data_1.csv''"
  by (simp add: out_path_def str_int_1)

lemma demo_parse_a:
  "demo_parse [tsv [''1'', ''-1'', ''1'', ''1''], tsv [''3'', ''3'', ''-3'', ''3'']] (CHR 0x09) False
     = Inr \<lparr>dtypes = [Numeric, Numeric, Numeric, Numeric],
            rows = [[Num 1, Num (- 1), Num 1, Num 1], [Num 3, Num 3, Num (- 3), Num 3]]\<rparr>"
  by (simp add: demo_parse_def tsv_def demo_cell_def cell_at_def upt_conv_Cons)

lemma demo_parse_b:
  "demo_parse [tsv [''5'', ''5'', ''5'', ''5''], tsv [''-5'', ''5'', ''5'', ''5'']] (CHR 0x09) False
     = Inr \<lparr>dtypes = [Numeric, Numeric, Numeric, Numeric],
            rows = [[Num 5, Num 5, Num 5, Num 5], [Num (- 5), Num 5, Num 5, Num 5]]\<rparr>"
  by (simp add: demo_parse_def tsv_def demo_cell_def cell_at_def upt_conv_Cons)

lemma summary_row_a:
  "summary_row 4 \<lparr>dtypes = [Numeric, Numeric, Numeric, Numeric],
            rows = [[Num 1, Num (- 1), Num 1, Num 1], [Num 3, Num 3, Num (- 3), Num 3]]\<rparr>
     = Inr [Num 2, Num 2, Num 2, Num 2]"
  by (simp add: summary_row_def df_abs_def df_mean_def ncols_def column_def cell_at_def
      col_mean_def reshape_row_def upt_conv_Cons)

lemma summary_row_b:
  "summary_row 4 \<lparr>dtypes = [Numeric, Numeric, Numeric, Numeric],
            rows = [[Num 5, Num 5, Num 5, Num 5], [Num (- 5), Num 5, Num 5, Num 5]]\<rparr>
     = Inr [Num 5, Num 5, Num 5, Num 5]"
  by (simp add: summary_row_def df_abs_def df_mean_def ncols_def column_def cell_at_def
      col_mean_def reshape_row_def upt_conv_Cons)

lemma demo_lines:
  "csv_line demo_fmt CHR '';'' [Num 2, Num 2, Num 2, Num 2] = ''2.0;2.0;2.0;2.0''"
  "csv_line demo_fmt CHR '';'' [Num 5, Num 5, Num 5, Num 5] = ''5.0;5.0;5.0;5.0''"
  by (simp_all add: csv_line_def demo_fmt_def str_int_def digits10.simps)

lemma bearing_rows_ab:
  "bearing_rows demo_parse (two_files_listed names) ''data'' 1 [''a'', ''b'']
     = (None, [[Num 2, Num 2, Num 2, Num 2], [Num 5, Num 5, Num 5, Num 5]])"
  by (simp add: two_files_listed_def two_files_def read_csv_def demo_parse_a demo_parse_b
      array_split_df_def array_split_one summary_row_a summary_row_b)

lemma bearing_rows_ba:
  "bearing_rows demo_parse (two_files_listed names) ''data'' 1 [''b'', ''a'']
     = (None, [[Num 5, Num 5, Num 5, Num 5], [Num 2, Num 2, Num 2, Num 2]])"
  by (simp add: two_files_listed_def two_files_def read_csv_def demo_parse_a demo_parse_b
      array_split_df_def array_split_one summary_row_a summary_row_b)

theorem bearing_rebuild_idempotent_witness:
  "dataset (init ''data'' 4) \<noteq> ''kbm''
   \<and> resample_data demo_parse demo_fmt (init ''data'' 4) 1
         ((two_files_listed [''a'', ''b''])(''data_1.csv'' \<mapsto> File [''9.0;9.0;9.0;9.0'']))
       = resample_data demo_parse demo_fmt (init ''data'' 4) 1
           ((two_files_listed [''a'', ''b''])(''data_1.csv'' := None))
   \<and> table_lines (snd (resample_data demo_parse demo_fmt (init ''data'' 4) 1
          (two_files_listed [''a'', ''b'']))) ''data_1.csv''
       = [''2.0;2.0;2.0;2.0'', ''5.0;5.0;5.0;5.0'']"
proof -
  have b: "dataset (init ''data'' 4) \<noteq> ''kbm''"
    by (simp add: init_def)
  have nd: "\<not> is_dir (two_files_listed [''a'', ''b'']) ''data_1.csv''"
    by (simp add: is_dir_def two_files_listed_def two_files_def)
  have dp: "data_path (init ''data'' 4) = ''data''"
    by (simp add: init_def)
  have sc: "os_scandir (two_files_listed [''a'', ''b'']) ''data'' = Inr [''a'', ''b'']"
    by (simp add: os_scandir_def two_files_listed_def)
  show ?thesis
    using bearing_rebuild_idempotent [OF b, of demo_parse demo_fmt 1 "two_files_listed [''a'', ''b'']"
        "[''9.0;9.0;9.0;9.0'']"] b nd
    by (simp add: dp out_path_data_1 sc bearing_rows_ab demo_lines del: bearing_rows.simps)
qed

section \<open>The order of the output\<close>

lemma resample_data_bearing_lines:
  assumes "dataset self \<noteq> ''kbm''" and nd: "\<not> is_dir fs (out_path (data_path self) n)"
  shows "table_lines (snd (resample_data parse fmt self n fs)) (out_path (data_path self) n)
      = (case os_scandir fs (data_path self) of
           Inl e \<Rightarrow> []
         | Inr names \<Rightarrow>
             map (csv_line fmt CHR '';'') (snd (bearing_rows parse fs (data_path self) n names)))"
proof -
  let ?out = "out_path (data_path self) n"
  have nd1: "\<not> is_dir (fs(?out := None)) ?out" by (simp add: is_dir_def)
  have tl0: "table_lines (fs(?out := None)) ?out = []" by (simp add: table_lines_def)
  show ?thesis
    using nd assms tl0 table_lines_append_lines [OF nd1]
    by (simp add: resample_data_bearing_run split: sum.splits)
qed

text \<open>
  Claim C6 says that the bearing strategy processes the files in an order that does
  not depend on the order in which the directory is enumerated. Line 45 iterates
  over \<^verbatim>\<open>os.scandir\<close> as it comes: two file systems that hold the same files and
  differ only in the enumeration order of \<^verbatim>\<open>data\<close> give the output rows in
  different orders.
\<close>

theorem scandir_order_counterexample:
  "table_lines (snd (resample_data demo_parse demo_fmt (init ''data'' 4) 1
      (two_files_listed [''a'', ''b'']))) ''data_1.csv''
     = [''2.0;2.0;2.0;2.0'', ''5.0;5.0;5.0;5.0'']
   \<and> table_lines (snd (resample_data demo_parse demo_fmt (init ''data'' 4) 1
      (two_files_listed [''b'', ''a'']))) ''data_1.csv''
     = [''5.0;5.0;5.0;5.0'', ''2.0;2.0;2.0;2.0'']
   \<and> (two_files_listed [''a'', ''b''])(''data'' := None) = (two_files_listed [''b'', ''a''])(''data'' := None)
   \<and> set [''a'', ''b''] = set [''b'', ''a'']"
proof -
  have b: "dataset (init ''data'' 4) \<noteq> ''kbm''"
    by (simp add: init_def)
  have nd: "\<not> is_dir (two_files_listed names) (out_path (data_path (init ''data'' 4)) 1)" for names
    by (simp add: is_dir_def two_files_listed_def two_files_def init_def out_path_data_1)
  have dp: "data_path (init ''data'' 4) = ''data''"
    by (simp add: init_def)
  have sc: "os_scandir (two_files_listed names) ''data'' = Inr names" for names
    by (simp add: os_scandir_def two_files_listed_def)
  have ab: "table_lines (snd (resample_data demo_parse demo_fmt (init ''data'' 4) 1
      (two_files_listed [''a'', ''b'']))) ''data_1.csv''
     = [''2.0;2.0;2.0;2.0'', ''5.0;5.0;5.0;5.0'']"
    using resample_data_bearing_lines [OF b nd, of demo_parse demo_fmt "[''a'', ''b'']"]
    by (simp add: dp out_path_data_1 sc bearing_rows_ab demo_lines del: bearing_rows.simps)
  have ba: "table_lines (snd (resample_data demo_parse demo_fmt (init ''data'' 4) 1
      (two_files_listed [''b'', ''a'']))) ''data_1.csv''
     = [''5.0;5.0;5.0;5.0'', ''2.0;2.0;2.0;2.0'']"
    using resample_data_bearing_lines [OF b nd, of demo_parse demo_fmt "[''b'', ''a'']"]
    by (simp add: dp out_path_data_1 sc bearing_rows_ba demo_lines del: bearing_rows.simps)
  have same: "(two_files_listed [''a'', ''b''])(''data'' := None) = (two_files_listed [''b'', ''a''])(''data'' := None)"
    by (simp add: two_files_listed_def)
  show ?thesis using ab ba same by auto
qed

section \<open>The rows of a run\<close>

lemma summary_row_length: "summary_row width c = Inr row \<Longrightarrow> length row = ncols c"
  by (auto simp: summary_row_def df_abs_def reshape_row_def df_mean_def ncols_def
      split: if_splits)

lemma chunk_rows_width:
  "list_all (\<lambda>c. ncols c = C) dfs \<Longrightarrow> list_all (\<lambda>r. length r = C) (snd (chunk_rows width dfs))"
  by (induction dfs) (auto simp: summary_row_length split: sum.splits prod.splits)

lemma array_split_df_ncols:
  "array_split_df df n = Inr dfs \<Longrightarrow> list_all (\<lambda>c. ncols c = ncols df) dfs"
  by (auto simp: array_split_df_def ncols_def list_all_iff split: sum.splits)

lemma bearing_rows_width:
  "(\<forall>name\<in>set names. \<forall>df. read_csv parse fs (path @ ''/'' @ name) (CHR 0x09) False = Inr df
        \<longrightarrow> ncols df = C) \<Longrightarrow>
   list_all (\<lambda>r. length r = C) (snd (bearing_rows parse fs path n names))"
proof (induction names)
  case Nil
  show ?case by simp
next
  case (Cons name names)
  have ih: "list_all (\<lambda>r. length r = C) (snd (bearing_rows parse fs path n names))"
    using Cons.prems by (intro Cons.IH) simp
  show ?case
  proof (cases "read_csv parse fs (path @ ''/'' @ name) (CHR 0x09) False")
    case (Inl e)
    then show ?thesis by simp
  next
    case df: (Inr df)
    then have c: "ncols df = C" using Cons.prems by simp
    show ?thesis
    proof (cases "array_split_df df n")
      case (Inl e)
      then show ?thesis using df by simp
    next
      case dfs: (Inr dfs)
      have "list_all (\<lambda>c. ncols c = C) dfs"
        using array_split_df_ncols [OF dfs] c by simp
      then have "list_all (\<lambda>r. length r = C) (snd (chunk_rows 4 dfs))"
        by (rule chunk_rows_width)
      then show ?thesis
        using df dfs ih by (auto split: prod.splits option.splits)
    qed
  qed
qed

lemma kbm_rows_width:
  "list_all (\<lambda>m. ncols m = C) ms \<Longrightarrow> list_all (\<lambda>r. length r = C) (snd (kbm_rows width n ms))"
proof (induction ms)
  case Nil
  show ?case by simp
next
  case (Cons m ms)
  have ih: "list_all (\<lambda>r. length r = C) (snd (kbm_rows width n ms))"
    using Cons.prems by (intro Cons.IH) simp
  show ?case
  proof (cases "array_split_df m n")
    case (Inl e)
    then show ?thesis by simp
  next
    case dfs: (Inr dfs)
    have "list_all (\<lambda>c. ncols c = C) dfs"
      using array_split_df_ncols [OF dfs] Cons.prems by simp
    then have "list_all (\<lambda>r. length r = C) (snd (chunk_rows width dfs))"
      by (rule chunk_rows_width)
    then show ?thesis
      using dfs ih by (auto split: prod.splits option.splits)
  qed
qed

lemma kbm_measurements_ncols:
  "kbm_measurements df R = Inr ms \<Longrightarrow> list_all (\<lambda>m. ncols m = ncols df) ms"
proof -
  assume a: "kbm_measurements df R = Inr ms"
  then obtain df' where t: "kbm_truncate df R = Inr df'"
    and s: "array_split_df df' (int (length (rows df')) div 4000) = Inr ms"
    by (auto simp: kbm_measurements_def split: sum.splits)
  have "ncols df' = ncols df"
    using t by (auto simp: kbm_truncate_def iloc_to_def ncols_def split: if_splits)
  then show ?thesis using array_split_df_ncols [OF s] by simp
qed

lemma resample_data_kbm_rows:
  assumes "n \<noteq> R" and "\<not> is_dir fs (out_path (data_path self) n)"
  shows "resample_data_kbm parse fmt self n R fs =
     (case read_csv parse (fs(out_path (data_path self) n := None)) (data_path self @ ''_4000.csv'')
             CHR '','' True of
        Inl e \<Rightarrow> (Some e, fs(out_path (data_path self) n := None))
      | Inr df \<Rightarrow>
          (case kbm_measurements df R of
             Inl e \<Rightarrow> (Some e, fs(out_path (data_path self) n := None))
           | Inr ms \<Rightarrow>
               (fst (kbm_rows (num_features self) n ms),
                append_lines (fs(out_path (data_path self) n := None)) (out_path (data_path self) n)
                  (map (csv_line fmt CHR '';'') (snd (kbm_rows (num_features self) n ms))))))"
proof -
  let ?out = "out_path (data_path self) n"
  have nd1: "\<not> is_dir (fs(?out := None)) ?out" by (simp add: is_dir_def)
  show ?thesis
    using assms kbm_loop_rows [OF nd1]
    by (simp add: resample_data_kbm_def remove_if_exists_file Let_def split: sum.splits)
qed

subsection \<open>The worked example: a KBM table of 4001 samples\<close>

lemma numbers_replicate: "numbers (replicate k (Num x)) = replicate k x"
  by (induction k) auto

lemma demo_parse_kbm:
  "demo_parse (''x,y'' # replicate 4001 ''3,-4'') CHR '','' True
     = Inr \<lparr>dtypes = [Numeric, Numeric], rows = replicate 4001 [Num 3, Num (- 4)]\<rparr>"
  by (simp add: demo_parse_def demo_cell_def cell_at_def upt_conv_Cons list_ex_iff)

lemma kbm_measurements_4001:
  "kbm_measurements \<lparr>dtypes = [Numeric, Numeric], rows = replicate 4001 [Num 3, Num (- 4)]\<rparr> 4000
     = Inr [\<lparr>dtypes = [Numeric, Numeric], rows = replicate 4000 [Num 3, Num (- 4)]\<rparr>]"
  by (simp add: kbm_measurements_def kbm_truncate_def iloc_to_def array_split_df_def array_split_one)

lemma summary_row_kbm:
  "summary_row 2 \<lparr>dtypes = [Numeric, Numeric], rows = replicate 4000 [Num 3, Num (- 4)]\<rparr>
     = Inr [Num 3, Num 4]"
  by (simp add: summary_row_def df_abs_def df_mean_def ncols_def column_def cell_at_def
      col_mean_def reshape_row_def upt_conv_Cons numbers_replicate sum_list_replicate)

lemma kbm_rows_4000:
  "kbm_rows 2 1 [\<lparr>dtypes = [Numeric, Numeric], rows = replicate 4000 [Num 3, Num (- 4)]\<rparr>]
     = (None, [[Num 3, Num 4]])"
  by (simp add: array_split_df_def array_split_one summary_row_kbm)

lemma demo_line_kbm: "csv_line demo_fmt CHR '';'' [Num 3, Num 4] = ''3.0;4.0''"
  by (simp add: csv_line_def demo_fmt_def str_int_def digits10.simps)

lemma out_path_kbm_1: "out_path ''kbm'' 1 = ''kbm_1.csv''"
  by (simp add: out_path_def str_int_1)

lemma init_kbm: "init ''kbm'' 2 = \<lparr>data_path = ''kbm'', dataset = ''kbm'', num_features = 2\<rparr>"
  by (simp add: init_def)

lemma kbm_table_run:
  "resample_data_kbm demo_parse demo_fmt (init ''kbm'' 2) 1 4000 kbm_table
     = (None, kbm_table(''kbm_1.csv'' \<mapsto> File [''3.0;4.0'']))"
proof -
  have nd: "\<not> is_dir kbm_table (out_path (data_path (init ''kbm'' 2)) 1)"
    by (simp add: is_dir_def kbm_table_def init_kbm out_path_kbm_1)
  have rm: "kbm_table(''kbm_1.csv'' := None) = kbm_table"
    by (simp add: kbm_table_def fun_eq_iff)
  have rd: "read_csv demo_parse kbm_table ''kbm_4000.csv'' CHR '','' True
      = Inr \<lparr>dtypes = [Numeric, Numeric], rows = replicate 4001 [Num 3, Num (- 4)]\<rparr>"
    by (simp add: read_csv_def kbm_table_def demo_parse_kbm)
  have tl: "table_lines kbm_table ''kbm_1.csv'' = []"
    by (simp add: table_lines_def kbm_table_def)
  show ?thesis
    using resample_data_kbm_rows [OF _ nd, of 4000 demo_parse demo_fmt]
    by (simp add: init_kbm out_path_kbm_1 rm rd kbm_measurements_4001 kbm_rows_4000 demo_line_kbm
        append_lines_def tl del: kbm_rows.simps)
qed

section \<open>The output table of the bearing strategy\<close>

lemma array_split_df_windows: "0 < n \<Longrightarrow> array_split_df df n = Inr (windows df n)"
  by (simp add: array_split_df_def array_split_chop windows_def)

lemma length_windows: "0 < n \<Longrightarrow> length (windows df n) = nat n"
  by (simp add: windows_def length_chop length_window_sizes)

lemma concat_windows: "0 < n \<Longrightarrow> concat (map rows (windows df n)) = rows df"
  by (simp add: windows_def comp_def concat_chop sum_window_sizes)

lemma windows_cols: "w \<in> set (windows df n) \<Longrightarrow> dtypes w = dtypes df"
  by (auto simp: windows_def)

lemma chop_replicate:
  "chop (replicate n d) xs = map (\<lambda>k. take d (drop (k * d) xs)) [0..<n]"
proof (induction n arbitrary: xs)
  case 0
  show ?case by simp
next
  case (Suc n)
  have "[0..<Suc n] = 0 # map Suc [0..<n]"
    by (simp add: upt_conv_Cons map_Suc_upt del: upt_Suc)
  then have "map (\<lambda>k. take d (drop (k * d) xs)) [0..<Suc n]
      = take d xs # map (\<lambda>k. take d (drop (k * d) (drop d xs))) [0..<n]"
    by (simp add: comp_def add.commute del: upt_Suc)
  then show ?case by (simp add: Suc.IH del: upt_Suc)
qed


lemma summary_row_numeric:
  "Object \<notin> set (dtypes w) \<Longrightarrow> width = int (ncols w) \<Longrightarrow> summary_row width w = Inr (mean_abs_row w)"
  by (simp add: summary_row_def df_abs_def reshape_row_def mean_abs_row_def df_mean_def ncols_def)

lemma length_mean_abs_row: "length (mean_abs_row w) = ncols w"
  by (simp add: mean_abs_row_def df_mean_def ncols_def)

lemma chunk_rows_numeric:
  "list_all (\<lambda>w. summary_row width w = Inr (mean_abs_row w)) ws \<Longrightarrow>
   chunk_rows width ws = (None, map mean_abs_row ws)"
  by (induction ws) auto

lemma windows_summary:
  assumes "ncols df = 4" and "Object \<notin> set (dtypes df)"
  shows "list_all (\<lambda>w. summary_row 4 w = Inr (mean_abs_row w) \<and> length (mean_abs_row w) = 4)
           (windows df n)"
proof -
  have "summary_row 4 w = Inr (mean_abs_row w) \<and> length (mean_abs_row w) = 4"
    if "w \<in> set (windows df n)" for w
  proof -
    have d: "dtypes w = dtypes df" using that by (rule windows_cols)
    then have c: "ncols w = 4" using assms(1) by (simp add: ncols_def)
    have "Object \<notin> set (dtypes w)" using d assms(2) by simp
    then show ?thesis using c by (simp add: summary_row_numeric length_mean_abs_row)
  qed
  then show ?thesis by (simp add: list_all_iff)
qed

lemma bearing_rows_numeric:
  assumes "map (\<lambda>name. read_csv parse fs (path @ ''/'' @ name) (CHR 0x09) False) names = map Inr dfs"
    and "\<forall>df\<in>set dfs. ncols df = 4 \<and> Object \<notin> set (dtypes df)"
    and "1 \<le> n"
  shows "bearing_rows parse fs path n names
     = (None, concat (map (\<lambda>df. map mean_abs_row (windows df n)) dfs))"
  using assms(1,2)
proof (induction names arbitrary: dfs)
  case Nil
  then show ?case by simp
next
  case (Cons name names)
  then obtain df dfs' where dfs: "dfs = df # dfs'"
    and rd: "read_csv parse fs (path @ ''/'' @ name) (CHR 0x09) False = Inr df"
    and rest: "map (\<lambda>name. read_csv parse fs (path @ ''/'' @ name) (CHR 0x09) False) names = map Inr dfs'"
    by (cases dfs) auto
  have ok: "ncols df = 4" "Object \<notin> set (dtypes df)"
    and ok': "\<forall>df\<in>set dfs'. ncols df = 4 \<and> Object \<notin> set (dtypes df)"
    using Cons.prems(2) dfs by simp_all
  have ih: "bearing_rows parse fs path n names
     = (None, concat (map (\<lambda>df. map mean_abs_row (windows df n)) dfs'))"
    using rest ok' by (rule Cons.IH)
  have sp: "array_split_df df n = Inr (windows df n)"
    using assms(3) by (simp add: array_split_df_windows)
  have "list_all (\<lambda>w. summary_row 4 w = Inr (mean_abs_row w)) (windows df n)"
    using windows_summary [OF ok, of n] by (simp add: list_all_iff)
  then have cr: "chunk_rows 4 (windows df n) = (None, map mean_abs_row (windows df n))"
    by (rule chunk_rows_numeric)
  show ?case
    using rd sp cr ih dfs by simp
qed









section \<open>The role of the sampling rate\<close>

lemma lengths_windows:
  "0 < n \<Longrightarrow> map (\<lambda>w. length (rows w)) (windows df n) = window_sizes (length (rows df)) (nat n)"
  by (simp add: windows_def comp_def lengths_chop sum_window_sizes)

lemma sum_list_const: "\<forall>x\<in>set xs. x = k \<Longrightarrow> sum_list xs = length xs * (k::nat)"
  by (induction xs) auto

lemma window_sizes_all_eq:
  assumes "0 < s"
  shows "(\<forall>x\<in>set (window_sizes T s). x = k) \<longleftrightarrow> T = s * k"
proof
  assume "\<forall>x\<in>set (window_sizes T s). x = k"
  then have "sum_list (window_sizes T s) = length (window_sizes T s) * k"
    by (rule sum_list_const)
  then show "T = s * k"
    using assms by (simp add: sum_window_sizes length_window_sizes)
next
  assume "T = s * k"
  then show "\<forall>x\<in>set (window_sizes T s). x = k"
    using assms by (simp add: window_sizes_def)
qed

lemma array_split_df_Inr:
  assumes "array_split_df df s = Inr ms"
  shows "0 < s \<and> ms = windows df s"
proof -
  have "0 < s"
    using assms by (cases "0 < s") (simp_all add: array_split_df_def array_split_nonpos)
  then show ?thesis using assms by (simp add: array_split_df_windows)
qed

lemma measurements_shape:
  assumes "array_split_df df' (int (length (rows df')) div 4000) = Inr ms"
  shows "length ms = length (rows df') div 4000
       \<and> concat (map rows ms) = rows df'
       \<and> ((\<forall>m\<in>set ms. int (length (rows m)) = R) \<longleftrightarrow> int (length (rows df')) = int (length ms) * R)"
proof -
  let ?T = "length (rows df')"
  let ?s = "int ?T div 4000"
  have pos: "0 < ?s" and ms: "ms = windows df' ?s"
    using array_split_df_Inr [OF assms] by simp_all
  have ns: "nat ?s = ?T div 4000"
    by (simp add: nat_div_distrib)
  have len: "length ms = ?T div 4000"
    using pos ms ns by (simp add: length_windows)
  have cat: "concat (map rows ms) = rows df'"
    using pos ms by (simp add: concat_windows)
  have sizes: "map (\<lambda>w. length (rows w)) ms = window_sizes ?T (?T div 4000)"
    using pos ms ns lengths_windows [of ?s df'] by simp
  have spos: "0 < ?T div 4000" using pos ns by linarith
  have ne: "ms \<noteq> []" using len spos by auto
  have iff: "(\<forall>m\<in>set ms. int (length (rows m)) = R) \<longleftrightarrow> int ?T = int (length ms) * R"
  proof (cases "0 \<le> R")
    case True
    have "(\<forall>m\<in>set ms. length (rows m) = nat R) \<longleftrightarrow> (\<forall>x\<in>set (map (\<lambda>w. length (rows w)) ms). x = nat R)"
      by simp
    also have "\<dots> \<longleftrightarrow> ?T = (?T div 4000) * nat R"
      unfolding sizes using spos by (rule window_sizes_all_eq)
    finally have "(\<forall>m\<in>set ms. length (rows m) = nat R) \<longleftrightarrow> ?T = length ms * nat R"
      using len by simp
    moreover have "(\<forall>m\<in>set ms. int (length (rows m)) = R) \<longleftrightarrow> (\<forall>m\<in>set ms. length (rows m) = nat R)"
      using True by auto
    moreover have "int ?T = int (length ms) * R \<longleftrightarrow> ?T = length ms * nat R"
      using True by (metis int_nat_eq nat_int of_nat_mult)
    ultimately show ?thesis by simp
  next
    case False
    then have neg: "R < 0" by simp
    obtain m where "m \<in> set ms" using ne by (cases ms) auto
    then have l: "\<not> (\<forall>m\<in>set ms. int (length (rows m)) = R)"
      using neg by force
    have "int (length ms) * R < 0"
      using neg ne by (simp add: mult_pos_neg)
    then have "int ?T \<noteq> int (length ms) * R" by linarith
    then show ?thesis using l by simp
  qed
  show ?thesis using len cat iff by simp
qed

text \<open>
  Claim C10 as amended. In \<^verbatim>\<open>resample_data_kbm\<close> the sampling rate enters the guard
  of line 63 and the truncation of line 74 and nothing else: the file read is always
  \<^verbatim>\<open><data_path>_4000.csv\<close> and the number of measurements is always the length of
  the truncated table divided by 4000. The measurements are contiguous parts of the
  truncated table, and they are chunks of \<^verbatim>\<open>sampling_rate\<close> rows exactly when the
  truncated length is the number of measurements times the sampling rate; for a
  sampling rate other than 4000 this can hold (4001, a table of 4002 rows) or fail
  (2000, a table of 4001 rows).
\<close>

theorem kbm_sampling_rate_role:
  assumes "n \<noteq> R" and "\<not> is_dir fs (out_path (data_path self) n)"
  shows "resample_data_kbm parse fmt self n R fs =
      (case read_csv parse (fs(out_path (data_path self) n := None)) (data_path self @ ''_4000.csv'')
              CHR '','' True of
         Inl e \<Rightarrow> (Some e, fs(out_path (data_path self) n := None))
       | Inr df \<Rightarrow>
           (case kbm_truncate df R of
              Inl e \<Rightarrow> (Some e, fs(out_path (data_path self) n := None))
            | Inr df' \<Rightarrow>
                (case array_split_df df' (int (length (rows df')) div 4000) of
                   Inl e \<Rightarrow> (Some e, fs(out_path (data_path self) n := None))
                 | Inr ms \<Rightarrow>
                     kbm_loop fmt (out_path (data_path self) n) (num_features self) n ms
                       (fs(out_path (data_path self) n := None)))))
    \<and> (\<forall>df df' ms.
          kbm_truncate df R = Inr df' \<longrightarrow>
          array_split_df df' (int (length (rows df')) div 4000) = Inr ms \<longrightarrow>
            length ms = length (rows df') div 4000
          \<and> concat (map rows ms) = rows df'
          \<and> ((\<forall>m\<in>set ms. int (length (rows m)) = R)
               \<longleftrightarrow> int (length (rows df')) = int (length ms) * R))"
proof -
  have run: "resample_data_kbm parse fmt self n R fs =
      (case read_csv parse (fs(out_path (data_path self) n := None)) (data_path self @ ''_4000.csv'')
              CHR '','' True of
         Inl e \<Rightarrow> (Some e, fs(out_path (data_path self) n := None))
       | Inr df \<Rightarrow>
           (case kbm_truncate df R of
              Inl e \<Rightarrow> (Some e, fs(out_path (data_path self) n := None))
            | Inr df' \<Rightarrow>
                (case array_split_df df' (int (length (rows df')) div 4000) of
                   Inl e \<Rightarrow> (Some e, fs(out_path (data_path self) n := None))
                 | Inr ms \<Rightarrow>
                     kbm_loop fmt (out_path (data_path self) n) (num_features self) n ms
                       (fs(out_path (data_path self) n := None)))))"
    using assms
    by (simp add: resample_data_kbm_def remove_if_exists_file kbm_measurements_def Let_def
        split: sum.splits)
  have shape: "\<forall>df df' ms.
          kbm_truncate df R = Inr df' \<longrightarrow>
          array_split_df df' (int (length (rows df')) div 4000) = Inr ms \<longrightarrow>
            length ms = length (rows df') div 4000
          \<and> concat (map rows ms) = rows df'
          \<and> ((\<forall>m\<in>set ms. int (length (rows m)) = R)
               \<longleftrightarrow> int (length (rows df')) = int (length ms) * R)"
  proof (intro allI impI)
    fix df df' :: frame and ms
    assume "array_split_df df' (int (length (rows df')) div 4000) = Inr ms"
    then show "length ms = length (rows df') div 4000
          \<and> concat (map rows ms) = rows df'
          \<and> ((\<forall>m\<in>set ms. int (length (rows m)) = R)
               \<longleftrightarrow> int (length (rows df')) = int (length ms) * R)"
      by (rule measurements_shape)
  qed
  from run shape show ?thesis by (rule conjI)
qed

text \<open>With the sampling rate 2000 a table of 4001 rows gives one measurement of 4000 rows.\<close>

lemma kbm_measurements_2000:
  "kbm_measurements \<lparr>dtypes = [Numeric], rows = replicate 4001 [Num 1]\<rparr> 2000
     = Inr [\<lparr>dtypes = [Numeric], rows = replicate 4000 [Num 1]\<rparr>]"
  by (simp add: kbm_measurements_def kbm_truncate_def iloc_to_def array_split_df_def array_split_one)

theorem kbm_sampling_rate_role_witness:
  "(1::int) \<noteq> 2000
   \<and> \<not> is_dir kbm_table (out_path (data_path (init ''kbm'' 2)) 1)
   \<and> kbm_truncate \<lparr>dtypes = [Numeric, Numeric], rows = replicate 4001 [Num 3, Num (- 4)]\<rparr> 2000
       = Inr \<lparr>dtypes = [Numeric, Numeric], rows = replicate 4000 [Num 3, Num (- 4)]\<rparr>
   \<and> length [\<lparr>dtypes = [Numeric, Numeric], rows = replicate 4000 [Num 3, Num (- 4)]\<rparr>]
       = length (rows \<lparr>dtypes = [Numeric, Numeric], rows = replicate 4000 [Num 3, Num (- 4)]\<rparr>) div 4000
   \<and> \<not> list_all (\<lambda>m. int (length (rows m)) = 2000)
         [\<lparr>dtypes = [Numeric, Numeric], rows = replicate 4000 [Num 3, Num (- 4)]\<rparr>]
   \<and> resample_data_kbm demo_parse demo_fmt (init ''kbm'' 2) 1 2000 kbm_table
       = (None, kbm_table(''kbm_1.csv'' \<mapsto> File [''3.0;4.0'']))"
proof -
  let ?df = "\<lparr>dtypes = [Numeric, Numeric], rows = replicate 4001 [Num 3, Num (- 4)]\<rparr>"
  let ?df' = "\<lparr>dtypes = [Numeric, Numeric], rows = replicate 4000 [Num 3, Num (- 4)]\<rparr>"
  let ?self = "init ''kbm'' 2"
  have ne: "(1::int) \<noteq> 2000" by simp
  have nd: "\<not> is_dir kbm_table (out_path (data_path ?self) 1)"
    by (simp add: is_dir_def kbm_table_def init_kbm out_path_kbm_1)
  have tr: "kbm_truncate ?df 2000 = Inr ?df'"
    by (simp add: kbm_truncate_def iloc_to_def)
  have sp: "array_split_df ?df' (int (length (rows ?df')) div 4000) = Inr [?df']"
    by (simp add: array_split_df_def array_split_one)
  note T = kbm_sampling_rate_role [OF ne nd, of demo_parse demo_fmt]
  from T have shape: "length [?df'] = length (rows ?df') div 4000
      \<and> ((\<forall>m\<in>set [?df']. int (length (rows m)) = 2000)
           \<longleftrightarrow> int (length (rows ?df')) = int (length [?df']) * 2000)"
    using tr sp by blast
  then have no: "\<not> list_all (\<lambda>m. int (length (rows m)) = 2000) [?df']"
    by simp
  have rm: "kbm_table(''kbm_1.csv'' := None) = kbm_table"
    by (simp add: kbm_table_def fun_eq_iff)
  have rd: "read_csv demo_parse kbm_table ''kbm_4000.csv'' CHR '','' True = Inr ?df"
    by (simp add: read_csv_def kbm_table_def demo_parse_kbm)
  have ndk: "\<not> is_dir kbm_table ''kbm_1.csv''"
    by (simp add: is_dir_def kbm_table_def)
  have tl: "table_lines kbm_table ''kbm_1.csv'' = []"
    by (simp add: table_lines_def kbm_table_def)
  have loop: "kbm_loop demo_fmt ''kbm_1.csv'' 2 1 [?df'] kbm_table
      = (None, kbm_table(''kbm_1.csv'' \<mapsto> File [''3.0;4.0'']))"
    using kbm_loop_rows [OF ndk, of demo_fmt 2 1 "[?df']"]
    by (simp add: kbm_rows_4000 demo_line_kbm append_lines_def tl del: kbm_rows.simps)
  from T have "resample_data_kbm demo_parse demo_fmt ?self 1 2000 kbm_table
       = (None, kbm_table(''kbm_1.csv'' \<mapsto> File [''3.0;4.0'']))"
    using tr sp
    by (simp add: init_kbm out_path_kbm_1 rm rd loop del: kbm_loop.simps)
  then show ?thesis
    using ne nd tr shape no by simp
qed

section \<open>The truncation off the multiples of the sampling rate\<close>

text \<open>
  Where the length is not a multiple of the sampling rate, the truncation law of the
  specification holds: a table of 12000 rows followed by 500 more rows is cut to the
  12000 rows and split into three measurements of 4000 rows.
\<close>

lemma kbm_measurements_12500:
  "kbm_measurements \<lparr>dtypes = ds, rows = xs @ replicate 500 r\<rparr> 4000
     = Inr [\<lparr>dtypes = ds, rows = take 4000 xs\<rparr>,
            \<lparr>dtypes = ds, rows = take 4000 (drop 4000 xs)\<rparr>,
            \<lparr>dtypes = ds, rows = take 4000 (drop 8000 xs)\<rparr>]"
  if "length xs = 12000"
proof -
  have t: "kbm_truncate \<lparr>dtypes = ds, rows = xs @ replicate 500 r\<rparr> 4000 = Inr \<lparr>dtypes = ds, rows = xs\<rparr>"
    using that by (simp add: kbm_truncate_def iloc_to_def)
  have w: "window_sizes 12000 3 = replicate 3 4000"
    by (simp add: window_sizes_def)
  have "chop (replicate 3 4000) xs = [take 4000 xs, take 4000 (drop 4000 xs), take 4000 (drop 8000 xs)]"
    by (simp add: chop_replicate upt_conv_Cons numeral_3_eq_3)
  then show ?thesis
    using that t w by (simp add: kbm_measurements_def array_split_df_def array_split_chop)
qed

section \<open>The order of the lines in the output file\<close>

lemma bearing_rows_Cons:
  "bearing_rows parse fs path n (name # names) =
     (case file_rows parse fs path n name of
        (Some e, rs) \<Rightarrow> (Some e, rs)
      | (None, rs) \<Rightarrow> (case bearing_rows parse fs path n names of (e, rs') \<Rightarrow> (e, rs @ rs')))"
  by (simp add: file_rows_def frame_rows_def split: sum.splits prod.splits option.splits)

lemma kbm_rows_Cons:
  "kbm_rows width n (m # ms) =
     (case frame_rows width n m of
        (Some e, rs) \<Rightarrow> (Some e, rs)
      | (None, rs) \<Rightarrow> (case kbm_rows width n ms of (e, rs') \<Rightarrow> (e, rs @ rs')))"
  by (simp add: frame_rows_def split: sum.splits prod.splits option.splits)

lemma bearing_rows_all:
  "\<forall>name\<in>set names. fst (file_rows parse fs path n name) = None \<Longrightarrow>
   bearing_rows parse fs path n names
     = (None, concat (map (\<lambda>name. snd (file_rows parse fs path n name)) names))"
proof (induction names)
  case Nil
  show ?case by simp
next
  case (Cons name names)
  obtain rs where f: "file_rows parse fs path n name = (None, rs)"
    using Cons.prems by (cases "file_rows parse fs path n name") auto
  have "bearing_rows parse fs path n names
     = (None, concat (map (\<lambda>name. snd (file_rows parse fs path n name)) names))"
    using Cons.prems by (intro Cons.IH) simp
  then show ?case
    by (simp only: bearing_rows_Cons f) (simp add: f)
qed

lemma bearing_rows_until:
  "\<forall>x\<in>set names1. fst (file_rows parse fs path n x) = None \<Longrightarrow>
   fst (file_rows parse fs path n name) = Some e \<Longrightarrow>
   bearing_rows parse fs path n (names1 @ name # names2)
     = (Some e, concat (map (\<lambda>x. snd (file_rows parse fs path n x)) names1)
                @ snd (file_rows parse fs path n name))"
proof (induction names1)
  case Nil
  obtain rs where f: "file_rows parse fs path n name = (Some e, rs)"
    using Nil.prems(2) by (cases "file_rows parse fs path n name") auto
  show ?case by (simp only: append_Nil bearing_rows_Cons f) (simp add: f)
next
  case (Cons x names1)
  obtain rs where f: "file_rows parse fs path n x = (None, rs)"
    using Cons.prems(1) by (cases "file_rows parse fs path n x") auto
  have "bearing_rows parse fs path n (names1 @ name # names2)
     = (Some e, concat (map (\<lambda>x. snd (file_rows parse fs path n x)) names1)
                @ snd (file_rows parse fs path n name))"
    using Cons.prems by (intro Cons.IH) simp_all
  then show ?case
    by (simp only: append_Cons bearing_rows_Cons f) (simp add: f)
qed

lemma kbm_rows_all:
  "\<forall>m\<in>set ms. fst (frame_rows width n m) = None \<Longrightarrow>
   kbm_rows width n ms = (None, concat (map (\<lambda>m. snd (frame_rows width n m)) ms))"
proof (induction ms)
  case Nil
  show ?case by simp
next
  case (Cons m ms)
  obtain rs where f: "frame_rows width n m = (None, rs)"
    using Cons.prems by (cases "frame_rows width n m") auto
  have "kbm_rows width n ms = (None, concat (map (\<lambda>m. snd (frame_rows width n m)) ms))"
    using Cons.prems by (intro Cons.IH) simp
  then show ?case
    by (simp only: kbm_rows_Cons f) (simp add: f)
qed

lemma kbm_rows_until:
  "\<forall>x\<in>set ms1. fst (frame_rows width n x) = None \<Longrightarrow>
   fst (frame_rows width n m) = Some e \<Longrightarrow>
   kbm_rows width n (ms1 @ m # ms2)
     = (Some e, concat (map (\<lambda>x. snd (frame_rows width n x)) ms1) @ snd (frame_rows width n m))"
proof (induction ms1)
  case Nil
  obtain rs where f: "frame_rows width n m = (Some e, rs)"
    using Nil.prems(2) by (cases "frame_rows width n m") auto
  show ?case by (simp only: append_Nil kbm_rows_Cons f) (simp add: f)
next
  case (Cons x ms1)
  obtain rs where f: "frame_rows width n x = (None, rs)"
    using Cons.prems(1) by (cases "frame_rows width n x") auto
  have "kbm_rows width n (ms1 @ m # ms2)
     = (Some e, concat (map (\<lambda>x. snd (frame_rows width n x)) ms1) @ snd (frame_rows width n m))"
    using Cons.prems by (intro Cons.IH) simp_all
  then show ?case
    by (simp only: append_Cons kbm_rows_Cons f) (simp add: f)
qed

lemma bearing_run_lines:
  assumes "os_scandir fs (data_path self) = Inr names"
    and nd: "\<not> is_dir fs (out_path (data_path self) n)"
  shows "fst (resample_data_bearing parse fmt self n fs)
           = fst (bearing_rows parse fs (data_path self) n names)
       \<and> table_lines (snd (resample_data_bearing parse fmt self n fs)) (out_path (data_path self) n)
           = table_lines fs (out_path (data_path self) n)
             @ map (csv_line fmt CHR '';'') (snd (bearing_rows parse fs (data_path self) n names))"
  using assms table_lines_append_lines [OF nd]
  by (simp add: resample_data_bearing_rows)

lemma kbm_run_lines:
  assumes "n \<noteq> R" and nd: "\<not> is_dir fs (out_path (data_path self) n)"
    and "read_csv parse (fs(out_path (data_path self) n := None)) (data_path self @ ''_4000.csv'')
           CHR '','' True = Inr df"
    and "kbm_measurements df R = Inr ms"
  shows "fst (resample_data_kbm parse fmt self n R fs) = fst (kbm_rows (num_features self) n ms)
       \<and> table_lines (snd (resample_data_kbm parse fmt self n R fs)) (out_path (data_path self) n)
           = map (csv_line fmt CHR '';'') (snd (kbm_rows (num_features self) n ms))"
proof -
  let ?out = "out_path (data_path self) n"
  have nd1: "\<not> is_dir (fs(?out := None)) ?out" by (simp add: is_dir_def)
  have tl0: "table_lines (fs(?out := None)) ?out = []" by (simp add: table_lines_def)
  show ?thesis
    using assms tl0 table_lines_append_lines [OF nd1]
    by (simp add: resample_data_kbm_rows)
qed

lemma bearing_output_order:
  assumes sc: "os_scandir fs (data_path self) = Inr names"
    and nd: "\<not> is_dir fs (out_path (data_path self) n)"
  shows "((\<forall>name\<in>set names. fst (file_rows parse fs (data_path self) n name) = None) \<longrightarrow>
            fst (resample_data_bearing parse fmt self n fs) = None
          \<and> table_lines (snd (resample_data_bearing parse fmt self n fs)) (out_path (data_path self) n)
              = table_lines fs (out_path (data_path self) n)
                @ concat (map (\<lambda>name. map (csv_line fmt CHR '';'')
                                   (snd (file_rows parse fs (data_path self) n name))) names))
       \<and> (\<forall>names1 name names2 e.
            names = names1 @ name # names2 \<longrightarrow>
            (\<forall>x\<in>set names1. fst (file_rows parse fs (data_path self) n x) = None) \<longrightarrow>
            fst (file_rows parse fs (data_path self) n name) = Some e \<longrightarrow>
              fst (resample_data_bearing parse fmt self n fs) = Some e
            \<and> table_lines (snd (resample_data_bearing parse fmt self n fs)) (out_path (data_path self) n)
                = table_lines fs (out_path (data_path self) n)
                  @ concat (map (\<lambda>x. map (csv_line fmt CHR '';'')
                                   (snd (file_rows parse fs (data_path self) n x))) names1)
                  @ map (csv_line fmt CHR '';'') (snd (file_rows parse fs (data_path self) n name)))"
proof (intro conjI allI impI)
  note L = bearing_run_lines [OF sc nd, of parse fmt]
  {
    assume "\<forall>name\<in>set names. fst (file_rows parse fs (data_path self) n name) = None"
    then have r: "bearing_rows parse fs (data_path self) n names
       = (None, concat (map (\<lambda>name. snd (file_rows parse fs (data_path self) n name)) names))"
      by (rule bearing_rows_all)
    show "fst (resample_data_bearing parse fmt self n fs) = None"
      using L r by simp
    show "table_lines (snd (resample_data_bearing parse fmt self n fs)) (out_path (data_path self) n)
              = table_lines fs (out_path (data_path self) n)
                @ concat (map (\<lambda>name. map (csv_line fmt CHR '';'')
                                   (snd (file_rows parse fs (data_path self) n name))) names)"
      using L r by (simp add: map_concat comp_def)
  }
  fix names1 name names2 e
  assume n: "names = names1 @ name # names2"
    and ok: "\<forall>x\<in>set names1. fst (file_rows parse fs (data_path self) n x) = None"
    and bad: "fst (file_rows parse fs (data_path self) n name) = Some e"
  have r: "bearing_rows parse fs (data_path self) n names
     = (Some e, concat (map (\<lambda>x. snd (file_rows parse fs (data_path self) n x)) names1)
                @ snd (file_rows parse fs (data_path self) n name))"
    unfolding n using ok bad by (rule bearing_rows_until)
  show "fst (resample_data_bearing parse fmt self n fs) = Some e"
    using L r by simp
  show "table_lines (snd (resample_data_bearing parse fmt self n fs)) (out_path (data_path self) n)
                = table_lines fs (out_path (data_path self) n)
                  @ concat (map (\<lambda>x. map (csv_line fmt CHR '';'')
                                   (snd (file_rows parse fs (data_path self) n x))) names1)
                  @ map (csv_line fmt CHR '';'') (snd (file_rows parse fs (data_path self) n name))"
    using L r by (simp add: map_concat comp_def)
qed

lemma kbm_measurements_order:
  assumes "kbm_measurements df R = Inr ms"
  shows "\<exists>df'. kbm_truncate df R = Inr df' \<and> concat (map rows ms) = rows df'"
proof -
  obtain df' where t: "kbm_truncate df R = Inr df'"
    and s: "array_split_df df' (int (length (rows df')) div 4000) = Inr ms"
    using assms by (auto simp: kbm_measurements_def split: sum.splits)
  have "concat (map rows ms) = rows df'"
    using measurements_shape [OF s, of 0] by simp
  then show ?thesis using t by blast
qed

lemma kbm_output_order:
  assumes ne: "n \<noteq> R" and nd: "\<not> is_dir fs (out_path (data_path self) n)"
    and rd: "read_csv parse (fs(out_path (data_path self) n := None)) (data_path self @ ''_4000.csv'')
           CHR '','' True = Inr df"
    and km: "kbm_measurements df R = Inr ms"
  shows "(\<exists>df'. kbm_truncate df R = Inr df' \<and> concat (map rows ms) = rows df')
       \<and> ((\<forall>m\<in>set ms. fst (frame_rows (num_features self) n m) = None) \<longrightarrow>
            fst (resample_data_kbm parse fmt self n R fs) = None
          \<and> table_lines (snd (resample_data_kbm parse fmt self n R fs)) (out_path (data_path self) n)
              = concat (map (\<lambda>m. map (csv_line fmt CHR '';'')
                                (snd (frame_rows (num_features self) n m))) ms))
       \<and> (\<forall>ms1 m ms2 e.
            ms = ms1 @ m # ms2 \<longrightarrow>
            (\<forall>x\<in>set ms1. fst (frame_rows (num_features self) n x) = None) \<longrightarrow>
            fst (frame_rows (num_features self) n m) = Some e \<longrightarrow>
              fst (resample_data_kbm parse fmt self n R fs) = Some e
            \<and> table_lines (snd (resample_data_kbm parse fmt self n R fs)) (out_path (data_path self) n)
                = concat (map (\<lambda>x. map (csv_line fmt CHR '';'')
                                  (snd (frame_rows (num_features self) n x))) ms1)
                  @ map (csv_line fmt CHR '';'') (snd (frame_rows (num_features self) n m)))"
proof (intro conjI allI impI)
  note L = kbm_run_lines [OF ne nd rd km, of fmt]
  show "\<exists>df'. kbm_truncate df R = Inr df' \<and> concat (map rows ms) = rows df'"
    using km by (rule kbm_measurements_order)
  {
    assume "\<forall>m\<in>set ms. fst (frame_rows (num_features self) n m) = None"
    then have r: "kbm_rows (num_features self) n ms
        = (None, concat (map (\<lambda>m. snd (frame_rows (num_features self) n m)) ms))"
      by (rule kbm_rows_all)
    show "fst (resample_data_kbm parse fmt self n R fs) = None"
      using L r by simp
    show "table_lines (snd (resample_data_kbm parse fmt self n R fs)) (out_path (data_path self) n)
              = concat (map (\<lambda>m. map (csv_line fmt CHR '';'')
                                (snd (frame_rows (num_features self) n m))) ms)"
      using L r by (simp add: map_concat comp_def)
  }
  fix ms1 m ms2 e
  assume n: "ms = ms1 @ m # ms2"
    and ok: "\<forall>x\<in>set ms1. fst (frame_rows (num_features self) n x) = None"
    and bad: "fst (frame_rows (num_features self) n m) = Some e"
  have r: "kbm_rows (num_features self) n ms
     = (Some e, concat (map (\<lambda>x. snd (frame_rows (num_features self) n x)) ms1)
                @ snd (frame_rows (num_features self) n m))"
    unfolding n using ok bad by (rule kbm_rows_until)
  show "fst (resample_data_kbm parse fmt self n R fs) = Some e"
    using L r by simp
  show "table_lines (snd (resample_data_kbm parse fmt self n R fs)) (out_path (data_path self) n)
                = concat (map (\<lambda>x. map (csv_line fmt CHR '';'')
                                  (snd (frame_rows (num_features self) n x))) ms1)
                  @ map (csv_line fmt CHR '';'') (snd (frame_rows (num_features self) n m))"
    using L r by (simp add: map_concat comp_def)
qed

text \<open>
  Claim C6 as amended. Two runs on the same inputs, the order in which
  \<^verbatim>\<open>os.scandir\<close> enumerates the directory among them, write the same lines in the
  same order, and that order is the order of the enumeration. For the bearing strategy:
  when every recording of the listing is processed without an error, the run succeeds
  and the output file holds its old lines followed by the lines of the recordings, one
  recording after the other as \<^verbatim>\<open>os.scandir\<close> lists them (nothing is sorted), in window
  order within each recording; when the recording \<open>name\<close> is the first that fails, the
  run ends in that error and the file holds the lines of the recordings listed before
  it and the lines of \<open>name\<close> written before the error. For the KBM strategy the same
  holds for the measurements, which are consecutive parts of the truncated table, in
  the order of the table; the output file is removed first, so it holds these lines alone.
\<close>

theorem output_follows_enumeration:
  "(os_scandir fs (data_path self) = Inr names \<longrightarrow>
    \<not> is_dir fs (out_path (data_path self) n) \<longrightarrow>
      ((\<forall>name\<in>set names. fst (file_rows parse fs (data_path self) n name) = None) \<longrightarrow>
            fst (resample_data_bearing parse fmt self n fs) = None
          \<and> table_lines (snd (resample_data_bearing parse fmt self n fs)) (out_path (data_path self) n)
              = table_lines fs (out_path (data_path self) n)
                @ concat (map (\<lambda>name. map (csv_line fmt CHR '';'')
                                   (snd (file_rows parse fs (data_path self) n name))) names))
       \<and> (\<forall>names1 name names2 e.
            names = names1 @ name # names2 \<longrightarrow>
            (\<forall>x\<in>set names1. fst (file_rows parse fs (data_path self) n x) = None) \<longrightarrow>
            fst (file_rows parse fs (data_path self) n name) = Some e \<longrightarrow>
              fst (resample_data_bearing parse fmt self n fs) = Some e
            \<and> table_lines (snd (resample_data_bearing parse fmt self n fs)) (out_path (data_path self) n)
                = table_lines fs (out_path (data_path self) n)
                  @ concat (map (\<lambda>x. map (csv_line fmt CHR '';'')
                                   (snd (file_rows parse fs (data_path self) n x))) names1)
                  @ map (csv_line fmt CHR '';'') (snd (file_rows parse fs (data_path self) n name))))
   \<and> (n \<noteq> R \<longrightarrow>
    \<not> is_dir fs (out_path (data_path self) n) \<longrightarrow>
    read_csv parse (fs(out_path (data_path self) n := None)) (data_path self @ ''_4000.csv'')
      CHR '','' True = Inr df \<longrightarrow>
    kbm_measurements df R = Inr ms \<longrightarrow>
      (\<exists>df'. kbm_truncate df R = Inr df' \<and> concat (map rows ms) = rows df')
       \<and> ((\<forall>m\<in>set ms. fst (frame_rows (num_features self) n m) = None) \<longrightarrow>
            fst (resample_data_kbm parse fmt self n R fs) = None
          \<and> table_lines (snd (resample_data_kbm parse fmt self n R fs)) (out_path (data_path self) n)
              = concat (map (\<lambda>m. map (csv_line fmt CHR '';'')
                                (snd (frame_rows (num_features self) n m))) ms))
       \<and> (\<forall>ms1 m ms2 e.
            ms = ms1 @ m # ms2 \<longrightarrow>
            (\<forall>x\<in>set ms1. fst (frame_rows (num_features self) n x) = None) \<longrightarrow>
            fst (frame_rows (num_features self) n m) = Some e \<longrightarrow>
              fst (resample_data_kbm parse fmt self n R fs) = Some e
            \<and> table_lines (snd (resample_data_kbm parse fmt self n R fs)) (out_path (data_path self) n)
                = concat (map (\<lambda>x. map (csv_line fmt CHR '';'')
                                  (snd (frame_rows (num_features self) n x))) ms1)
                  @ map (csv_line fmt CHR '';'') (snd (frame_rows (num_features self) n m))))"
proof (rule conjI)
  show "os_scandir fs (data_path self) = Inr names \<longrightarrow>
    \<not> is_dir fs (out_path (data_path self) n) \<longrightarrow>
      ((\<forall>name\<in>set names. fst (file_rows parse fs (data_path self) n name) = None) \<longrightarrow>
            fst (resample_data_bearing parse fmt self n fs) = None
          \<and> table_lines (snd (resample_data_bearing parse fmt self n fs)) (out_path (data_path self) n)
              = table_lines fs (out_path (data_path self) n)
                @ concat (map (\<lambda>name. map (csv_line fmt CHR '';'')
                                   (snd (file_rows parse fs (data_path self) n name))) names))
       \<and> (\<forall>names1 name names2 e.
            names = names1 @ name # names2 \<longrightarrow>
            (\<forall>x\<in>set names1. fst (file_rows parse fs (data_path self) n x) = None) \<longrightarrow>
            fst (file_rows parse fs (data_path self) n name) = Some e \<longrightarrow>
              fst (resample_data_bearing parse fmt self n fs) = Some e
            \<and> table_lines (snd (resample_data_bearing parse fmt self n fs)) (out_path (data_path self) n)
                = table_lines fs (out_path (data_path self) n)
                  @ concat (map (\<lambda>x. map (csv_line fmt CHR '';'')
                                   (snd (file_rows parse fs (data_path self) n x))) names1)
                  @ map (csv_line fmt CHR '';'') (snd (file_rows parse fs (data_path self) n name)))"
    using bearing_output_order [of fs self names n parse fmt] by (intro impI)
next
  show "n \<noteq> R \<longrightarrow>
    \<not> is_dir fs (out_path (data_path self) n) \<longrightarrow>
    read_csv parse (fs(out_path (data_path self) n := None)) (data_path self @ ''_4000.csv'')
      CHR '','' True = Inr df \<longrightarrow>
    kbm_measurements df R = Inr ms \<longrightarrow>
      (\<exists>df'. kbm_truncate df R = Inr df' \<and> concat (map rows ms) = rows df')
       \<and> ((\<forall>m\<in>set ms. fst (frame_rows (num_features self) n m) = None) \<longrightarrow>
            fst (resample_data_kbm parse fmt self n R fs) = None
          \<and> table_lines (snd (resample_data_kbm parse fmt self n R fs)) (out_path (data_path self) n)
              = concat (map (\<lambda>m. map (csv_line fmt CHR '';'')
                                (snd (frame_rows (num_features self) n m))) ms))
       \<and> (\<forall>ms1 m ms2 e.
            ms = ms1 @ m # ms2 \<longrightarrow>
            (\<forall>x\<in>set ms1. fst (frame_rows (num_features self) n x) = None) \<longrightarrow>
            fst (frame_rows (num_features self) n m) = Some e \<longrightarrow>
              fst (resample_data_kbm parse fmt self n R fs) = Some e
            \<and> table_lines (snd (resample_data_kbm parse fmt self n R fs)) (out_path (data_path self) n)
                = concat (map (\<lambda>x. map (csv_line fmt CHR '';'')
                                  (snd (frame_rows (num_features self) n x))) ms1)
                  @ map (csv_line fmt CHR '';'') (snd (frame_rows (num_features self) n m)))"
    using kbm_output_order [of n R fs self parse df ms fmt] by (intro impI)
qed

lemma file_rows_a:
  "file_rows demo_parse (two_files_listed names) ''data'' 1 ''a'' = (None, [[Num 2, Num 2, Num 2, Num 2]])"
  by (simp add: file_rows_def frame_rows_def read_csv_def two_files_listed_def two_files_def
      demo_parse_a array_split_df_def array_split_one summary_row_a)

lemma file_rows_b:
  "file_rows demo_parse (two_files_listed names) ''data'' 1 ''b'' = (None, [[Num 5, Num 5, Num 5, Num 5]])"
  by (simp add: file_rows_def frame_rows_def read_csv_def two_files_listed_def two_files_def
      demo_parse_b array_split_df_def array_split_one summary_row_b)

lemma file_rows_c:
  "file_rows demo_parse (two_files_listed names) ''data'' 1 ''c'' = (Some OSError, [])"
  by (simp add: file_rows_def read_csv_def two_files_listed_def two_files_def)

lemma frame_rows_kbm:
  "frame_rows 2 1 \<lparr>dtypes = [Numeric, Numeric], rows = replicate 4000 [Num 3, Num (- 4)]\<rparr>
     = (None, [[Num 3, Num 4]])"
  by (simp add: frame_rows_def array_split_df_def array_split_one summary_row_kbm)

text \<open>
  The worked example: the listing \<open>a, b\<close> gives the line of \<open>a\<close> and then the line of \<open>b\<close>;
  the listing \<open>a, c, b\<close>, where no file \<open>c\<close> exists, gives the line of \<open>a\<close> and ends in
  the error of \<open>c\<close>; the KBM table gives the line of its one measurement.
\<close>

theorem output_follows_enumeration_witness:
  "os_scandir (two_files_listed [''a'', ''b'']) (data_path (init ''data'' 4)) = Inr [''a'', ''b'']
   \<and> \<not> is_dir (two_files_listed [''a'', ''b'']) (out_path (data_path (init ''data'' 4)) 1)
   \<and> fst (resample_data_bearing demo_parse demo_fmt (init ''data'' 4) 1
          (two_files_listed [''a'', ''b''])) = None
   \<and> table_lines (snd (resample_data_bearing demo_parse demo_fmt (init ''data'' 4) 1
          (two_files_listed [''a'', ''b'']))) ''data_1.csv''
       = [''2.0;2.0;2.0;2.0'', ''5.0;5.0;5.0;5.0'']
   \<and> fst (resample_data_bearing demo_parse demo_fmt (init ''data'' 4) 1
          (two_files_listed [''a'', ''c'', ''b''])) = Some OSError
   \<and> table_lines (snd (resample_data_bearing demo_parse demo_fmt (init ''data'' 4) 1
          (two_files_listed [''a'', ''c'', ''b'']))) ''data_1.csv''
       = [''2.0;2.0;2.0;2.0'']
   \<and> fst (resample_data_kbm demo_parse demo_fmt (init ''kbm'' 2) 1 4000 kbm_table) = None
   \<and> table_lines (snd (resample_data_kbm demo_parse demo_fmt (init ''kbm'' 2) 1 4000 kbm_table))
         ''kbm_1.csv''
       = [''3.0;4.0'']"
proof -
  let ?self = "init ''data'' 4"
  let ?df = "\<lparr>dtypes = [Numeric, Numeric], rows = replicate 4001 [Num 3, Num (- 4)]\<rparr>"
  let ?m = "\<lparr>dtypes = [Numeric, Numeric], rows = replicate 4000 [Num 3, Num (- 4)]\<rparr>"
  have dp: "data_path ?self = ''data''" by (simp add: init_def)
  have sc: "os_scandir (two_files_listed names) (data_path ?self) = Inr names" for names
    by (simp add: os_scandir_def two_files_listed_def dp)
  have nd: "\<not> is_dir (two_files_listed names) (out_path (data_path ?self) 1)" for names
    by (simp add: is_dir_def two_files_listed_def two_files_def dp out_path_data_1)
  have old: "table_lines (two_files_listed names) ''data_1.csv'' = []" for names
    by (simp add: table_lines_def two_files_listed_def two_files_def)
  note B = output_follows_enumeration [where parse = demo_parse and fmt = demo_fmt and self = ?self
      and n = 1, THEN conjunct1, rule_format]
  note B1 = B [OF sc nd, THEN conjunct1, rule_format, of "[''a'', ''b'']"]
  have ok: "fst (file_rows demo_parse (two_files_listed [''a'', ''b'']) (data_path ?self) 1 name) = None"
    if "name \<in> set [''a'', ''b'']" for name
    using that by (auto simp: dp file_rows_a file_rows_b)
  have s1: "fst (resample_data_bearing demo_parse demo_fmt ?self 1 (two_files_listed [''a'', ''b''])) = None"
    and s2: "table_lines (snd (resample_data_bearing demo_parse demo_fmt ?self 1
          (two_files_listed [''a'', ''b'']))) ''data_1.csv''
       = [''2.0;2.0;2.0;2.0'', ''5.0;5.0;5.0;5.0'']"
    using B1 [OF ok] by (simp_all add: dp out_path_data_1 old file_rows_a file_rows_b demo_lines)
  note B2 = B [OF sc nd, THEN conjunct2, rule_format, of "[''a'', ''c'', ''b'']" "[''a'']" "''c''" "[''b'']" OSError]
  have f1: "fst (resample_data_bearing demo_parse demo_fmt ?self 1
          (two_files_listed [''a'', ''c'', ''b''])) = Some OSError"
    and f2: "table_lines (snd (resample_data_bearing demo_parse demo_fmt ?self 1
          (two_files_listed [''a'', ''c'', ''b'']))) ''data_1.csv''
       = [''2.0;2.0;2.0;2.0'']"
    using B2 by (simp_all add: dp out_path_data_1 old file_rows_a file_rows_c demo_lines)
  have ne: "(1::int) \<noteq> 4000" by simp
  have ndk: "\<not> is_dir kbm_table (out_path (data_path (init ''kbm'' 2)) 1)"
    by (simp add: is_dir_def kbm_table_def init_kbm out_path_kbm_1)
  have rd: "read_csv demo_parse (kbm_table(out_path (data_path (init ''kbm'' 2)) 1 := None))
      (data_path (init ''kbm'' 2) @ ''_4000.csv'') CHR '','' True = Inr ?df"
    by (simp add: read_csv_def kbm_table_def demo_parse_kbm init_kbm out_path_kbm_1)
  have km: "kbm_measurements ?df 4000 = Inr [?m]"
    by (rule kbm_measurements_4001)
  note K = output_follows_enumeration [where parse = demo_parse and fmt = demo_fmt
      and self = "init ''kbm'' 2" and n = 1, THEN conjunct2, rule_format, OF ne ndk rd km]
  note K1 = K [THEN conjunct2, THEN conjunct1, rule_format]
  have k1: "fst (resample_data_kbm demo_parse demo_fmt (init ''kbm'' 2) 1 4000 kbm_table) = None"
    and k2: "table_lines (snd (resample_data_kbm demo_parse demo_fmt (init ''kbm'' 2) 1 4000 kbm_table))
         ''kbm_1.csv'' = [''3.0;4.0'']"
    using K1 by (simp_all add: init_kbm out_path_kbm_1 frame_rows_kbm demo_line_kbm)
  show ?thesis
    using sc [of "[''a'', ''b'']"] nd [of "[''a'', ''b'']"] s1 s2 f1 f2 k1 k2 by simp
qed

section \<open>The rows that are written and their width\<close>

lemma summary_row_ok:
  "Object \<notin> set (dtypes w) \<Longrightarrow> width = int (ncols w) \<or> width = - 1 \<Longrightarrow>
   summary_row width w = Inr (mean_abs_row w)"
  by (auto simp: summary_row_def df_abs_def reshape_row_def mean_abs_row_def df_mean_def ncols_def)

lemma summary_row_bad:
  "Object \<notin> set (dtypes w) \<Longrightarrow> width \<noteq> int (ncols w) \<Longrightarrow> width \<noteq> - 1 \<Longrightarrow>
   summary_row width w = Inl ValueError"
  by (simp add: summary_row_def df_abs_def reshape_row_def df_mean_def ncols_def)

lemma windows_ncols: "w \<in> set (windows df n) \<Longrightarrow> ncols w = ncols df"
  using windows_cols [of w df n] by (simp add: ncols_def)

lemma windows_nonempty: "1 \<le> n \<Longrightarrow> windows df n \<noteq> []"
  using length_windows [of n df] by auto

lemma frame_rows_ok:
  assumes "Object \<notin> set (dtypes df)" and "width = int (ncols df) \<or> width = - 1" and "1 \<le> n"
  shows "frame_rows width n df = (None, map mean_abs_row (windows df n))"
proof -
  have "summary_row width w = Inr (mean_abs_row w)" if "w \<in> set (windows df n)" for w
    using assms(1,2) windows_cols [OF that] windows_ncols [OF that]
    by (intro summary_row_ok) simp_all
  then have "list_all (\<lambda>w. summary_row width w = Inr (mean_abs_row w)) (windows df n)"
    by (simp add: list_all_iff)
  then have "chunk_rows width (windows df n) = (None, map mean_abs_row (windows df n))"
    by (rule chunk_rows_numeric)
  then show ?thesis
    using assms(3) by (simp add: frame_rows_def array_split_df_windows)
qed

lemma frame_rows_bad:
  assumes "Object \<notin> set (dtypes df)" and "width \<noteq> int (ncols df)" and "width \<noteq> - 1" and "1 \<le> n"
  shows "frame_rows width n df = (Some ValueError, [])"
proof -
  obtain w ws where ws: "windows df n = w # ws"
    using windows_nonempty [OF assms(4), of df] by (cases "windows df n") auto
  then have w: "w \<in> set (windows df n)" by simp
  have "summary_row width w = Inl ValueError"
    using assms(1,2,3) windows_cols [OF w] windows_ncols [OF w]
    by (intro summary_row_bad) simp_all
  then show ?thesis
    using assms(4) ws by (simp add: frame_rows_def array_split_df_windows)
qed

lemma file_rows_loaded:
  "read_csv parse fs (path @ ''/'' @ name) (CHR 0x09) False = Inr df \<Longrightarrow>
   file_rows parse fs path n name = frame_rows 4 n df"
  by (simp add: file_rows_def)


lemma kbm_measurements_cols:
  assumes "kbm_measurements df R = Inr ms"
  shows "ms \<noteq> [] \<and> (\<forall>m\<in>set ms. dtypes m = dtypes df)"
proof -
  obtain df' where t: "kbm_truncate df R = Inr df'"
    and s: "array_split_df df' (int (length (rows df')) div 4000) = Inr ms"
    using assms by (auto simp: kbm_measurements_def split: sum.splits)
  have d: "dtypes df' = dtypes df"
    using t by (auto simp: kbm_truncate_def iloc_to_def split: if_splits)
  have pos: "0 < int (length (rows df')) div 4000" and ms: "ms = windows df' (int (length (rows df')) div 4000)"
    using array_split_df_Inr [OF s] by simp_all
  have "ms \<noteq> []" using pos ms windows_nonempty [of "int (length (rows df')) div 4000" df'] by simp
  moreover have "dtypes m = dtypes df" if "m \<in> set ms" for m
  proof -
    have "m \<in> set (windows df' (int (length (rows df')) div 4000))" using that ms by simp
    then have "dtypes m = dtypes df'" by (rule windows_cols)
    then show ?thesis using d by simp
  qed
  ultimately show ?thesis by blast
qed

lemma bearing_rows_wrong_width:
  assumes "map (\<lambda>name. read_csv parse fs (path @ ''/'' @ name) (CHR 0x09) False) names = map Inr dfs"
    and "\<forall>df\<in>set dfs. ncols df = C \<and> Object \<notin> set (dtypes df)"
    and "C \<noteq> 4" and "names \<noteq> []" and "1 \<le> n"
  shows "bearing_rows parse fs path n names = (Some ValueError, [])"
proof -
  obtain name names' where n: "names = name # names'"
    using assms(4) by (cases names) auto
  then obtain df dfs' where d: "dfs = df # dfs'"
    and rd: "read_csv parse fs (path @ ''/'' @ name) (CHR 0x09) False = Inr df"
    using assms(1) by (cases dfs) auto
  have "frame_rows 4 n df = (Some ValueError, [])"
    using assms(2,3,5) d by (intro frame_rows_bad) auto
  then have "fst (file_rows parse fs path n name) = Some ValueError"
    and "snd (file_rows parse fs path n name) = []"
    using rd by (simp_all add: file_rows_loaded)
  then show ?thesis
    using bearing_rows_until [of "[]" parse fs path n name ValueError names'] n by simp
qed

lemma kbm_rows_right_width:
  assumes "kbm_measurements df R = Inr ms" and "Object \<notin> set (dtypes df)"
    and "width = int (ncols df) \<or> width = - 1" and "1 \<le> n"
  shows "kbm_rows width n ms = (None, concat (map (\<lambda>m. map mean_abs_row (windows m n)) ms))"
proof -
  have fr: "frame_rows width n m = (None, map mean_abs_row (windows m n))" if "m \<in> set ms" for m
  proof -
    have "dtypes m = dtypes df" using kbm_measurements_cols [OF assms(1)] that by simp
    then show ?thesis
      using assms(2,3,4) by (intro frame_rows_ok) (simp_all add: ncols_def)
  qed
  then have "\<forall>m\<in>set ms. fst (frame_rows width n m) = None" by simp
  then have "kbm_rows width n ms = (None, concat (map (\<lambda>m. snd (frame_rows width n m)) ms))"
    by (rule kbm_rows_all)
  moreover have "map (\<lambda>m. snd (frame_rows width n m)) ms = map (\<lambda>m. map mean_abs_row (windows m n)) ms"
    using fr by simp
  ultimately show ?thesis by simp
qed

lemma kbm_rows_wrong_width:
  assumes "kbm_measurements df R = Inr ms" and "Object \<notin> set (dtypes df)"
    and "width \<noteq> int (ncols df)" and "width \<noteq> - 1" and "1 \<le> n"
  shows "kbm_rows width n ms = (Some ValueError, [])"
proof -
  obtain m ms' where ms: "ms = m # ms'"
    using kbm_measurements_cols [OF assms(1), THEN conjunct1] by (cases ms) auto
  have mem: "m \<in> set ms" by (simp add: ms)
  have d: "dtypes m = dtypes df"
    using kbm_measurements_cols [OF assms(1), THEN conjunct2] mem by (rule bspec)
  have fr: "frame_rows width n m = (Some ValueError, [])"
    using assms(2,3,4,5) d by (intro frame_rows_bad) (simp_all add: ncols_def)
  have "kbm_rows width n ([] @ m # ms')
     = (Some ValueError, concat (map (\<lambda>x. snd (frame_rows width n x)) []) @ snd (frame_rows width n m))"
    by (rule kbm_rows_until) (simp_all add: fr)
  then show ?thesis
    unfolding ms by (simp add: fr del: kbm_rows.simps)
qed

lemma bearing_rows_written:
  assumes sc: "os_scandir fs (data_path self) = Inr names"
    and nd: "\<not> is_dir fs (out_path (data_path self) n)"
    and rd: "map (\<lambda>name. read_csv parse fs (data_path self @ ''/'' @ name) (CHR 0x09) False) names
               = map Inr dfs"
    and ok: "\<forall>df\<in>set dfs. ncols df = C \<and> Object \<notin> set (dtypes df)"
    and n: "1 \<le> n"
  shows "(C = 4 \<longrightarrow>
            fst (resample_data_bearing parse fmt self n fs) = None
          \<and> table_lines (snd (resample_data_bearing parse fmt self n fs)) (out_path (data_path self) n)
              = table_lines fs (out_path (data_path self) n)
                @ concat (map (\<lambda>df. map (\<lambda>w. csv_line fmt CHR '';'' (mean_abs_row w)) (windows df n)) dfs)
          \<and> (\<forall>df\<in>set dfs.
                length (windows df n) = nat n
              \<and> list_all (\<lambda>w. summary_row 4 w = Inr (mean_abs_row w) \<and> length (mean_abs_row w) = C)
                   (windows df n)))
       \<and> (C \<noteq> 4 \<longrightarrow> names \<noteq> [] \<longrightarrow>
            resample_data_bearing parse fmt self n fs = (Some ValueError, fs))"
proof (intro conjI impI ballI)
  note L = bearing_run_lines [OF sc nd, of parse fmt]
  {
    assume c: "C = 4"
    have ok4: "\<forall>df\<in>set dfs. ncols df = 4 \<and> Object \<notin> set (dtypes df)"
      using ok c by simp
    have r: "bearing_rows parse fs (data_path self) n names
       = (None, concat (map (\<lambda>df. map mean_abs_row (windows df n)) dfs))"
      using rd ok4 n by (rule bearing_rows_numeric)
    show "fst (resample_data_bearing parse fmt self n fs) = None"
      using L r by simp
    show "table_lines (snd (resample_data_bearing parse fmt self n fs)) (out_path (data_path self) n)
              = table_lines fs (out_path (data_path self) n)
                @ concat (map (\<lambda>df. map (\<lambda>w. csv_line fmt CHR '';'' (mean_abs_row w)) (windows df n)) dfs)"
      using L r by (simp add: map_concat comp_def)
    fix df assume d: "df \<in> set dfs"
    show "length (windows df n) = nat n"
      using n by (simp add: length_windows)
    have "ncols df = 4" and "Object \<notin> set (dtypes df)" using ok4 d by simp_all
    then show "list_all (\<lambda>w. summary_row 4 w = Inr (mean_abs_row w) \<and> length (mean_abs_row w) = C)
                   (windows df n)"
      unfolding c by (rule windows_summary)
  }
  assume c: "C \<noteq> 4" and ne: "names \<noteq> []"
  have r: "bearing_rows parse fs (data_path self) n names = (Some ValueError, [])"
    using rd ok c ne n by (rule bearing_rows_wrong_width)
  show "resample_data_bearing parse fmt self n fs = (Some ValueError, fs)"
    using sc nd by (simp add: resample_data_bearing_rows r append_lines_Nil)
qed

lemma kbm_rows_written:
  assumes ne: "n \<noteq> R" and nd: "\<not> is_dir fs (out_path (data_path self) n)"
    and rd: "read_csv parse (fs(out_path (data_path self) n := None)) (data_path self @ ''_4000.csv'')
           CHR '','' True = Inr df"
    and num: "Object \<notin> set (dtypes df)"
    and km: "kbm_measurements df R = Inr ms"
    and n: "1 \<le> n"
  shows "(num_features self = int (ncols df) \<or> num_features self = - 1 \<longrightarrow>
            fst (resample_data_kbm parse fmt self n R fs) = None
          \<and> table_lines (snd (resample_data_kbm parse fmt self n R fs)) (out_path (data_path self) n)
              = concat (map (\<lambda>m. map (\<lambda>w. csv_line fmt CHR '';'' (mean_abs_row w)) (windows m n)) ms)
          \<and> (\<forall>m\<in>set ms.
                length (windows m n) = nat n
              \<and> list_all (\<lambda>w. summary_row (num_features self) w = Inr (mean_abs_row w)
                               \<and> length (mean_abs_row w) = ncols df)
                   (windows m n)))
       \<and> (num_features self \<noteq> int (ncols df) \<longrightarrow> num_features self \<noteq> - 1 \<longrightarrow>
            resample_data_kbm parse fmt self n R fs
              = (Some ValueError, fs(out_path (data_path self) n := None)))"
proof (intro conjI impI ballI)
  note L = kbm_run_lines [OF ne nd rd km, of fmt]
  {
    assume w: "num_features self = int (ncols df) \<or> num_features self = - 1"
    have r: "kbm_rows (num_features self) n ms
        = (None, concat (map (\<lambda>m. map mean_abs_row (windows m n)) ms))"
      using km num w n by (rule kbm_rows_right_width)
    show "fst (resample_data_kbm parse fmt self n R fs) = None"
      using L r by simp
    show "table_lines (snd (resample_data_kbm parse fmt self n R fs)) (out_path (data_path self) n)
              = concat (map (\<lambda>m. map (\<lambda>w. csv_line fmt CHR '';'' (mean_abs_row w)) (windows m n)) ms)"
      using L r by (simp add: map_concat comp_def)
    fix m assume m: "m \<in> set ms"
    show "length (windows m n) = nat n"
      using n by (simp add: length_windows)
    have dm: "dtypes m = dtypes df"
      using kbm_measurements_cols [OF km, THEN conjunct2] m by (rule bspec)
    have "summary_row (num_features self) x = Inr (mean_abs_row x) \<and> length (mean_abs_row x) = ncols df"
      if x: "x \<in> set (windows m n)" for x
    proof -
      have dx: "dtypes x = dtypes df" using windows_cols [OF x] dm by simp
      then have cx: "ncols x = ncols df" by (simp add: ncols_def)
      have "Object \<notin> set (dtypes x)" using dx num by simp
      moreover have "num_features self = int (ncols x) \<or> num_features self = - 1"
        using w cx by simp
      ultimately have "summary_row (num_features self) x = Inr (mean_abs_row x)"
        by (rule summary_row_ok)
      then show ?thesis using cx by (simp add: length_mean_abs_row)
    qed
    then show "list_all (\<lambda>w. summary_row (num_features self) w = Inr (mean_abs_row w)
                               \<and> length (mean_abs_row w) = ncols df) (windows m n)"
      by (simp add: list_all_iff)
  }
  assume b1: "num_features self \<noteq> int (ncols df)" and b2: "num_features self \<noteq> - 1"
  have r: "kbm_rows (num_features self) n ms = (Some ValueError, [])"
    using km num b1 b2 n by (rule kbm_rows_wrong_width)
  show "resample_data_kbm parse fmt self n R fs
              = (Some ValueError, fs(out_path (data_path self) n := None))"
    using ne nd rd km by (simp add: resample_data_kbm_rows r append_lines_Nil)
qed

text \<open>
  Claim C7 as amended. The width that \<^verbatim>\<open>reshape\<close> accepts is fixed by the code: 4 in
  the bearing strategy (line 52), \<^verbatim>\<open>num_features\<close> in the KBM strategy (line 88, where
  \<open>- 1\<close> stands for any width). For recordings of \<open>C\<close> numeric channels and a window
  count of at least 1: when \<open>C\<close> is that width, the run succeeds, the output file holds
  one line for every window of every recording (of every measurement), each the reduced
  row of its window, and each of these rows has exactly \<open>C\<close> fields; when \<open>C\<close> is another
  width, the run ends in \<^verbatim>\<open>ValueError\<close> at the first window and no row is written.
\<close>

theorem written_rows_have_source_width:
  "(os_scandir fs (data_path self) = Inr names \<longrightarrow>
    \<not> is_dir fs (out_path (data_path self) n) \<longrightarrow>
    map (\<lambda>name. read_csv parse fs (data_path self @ ''/'' @ name) (CHR 0x09) False) names
      = map Inr dfs \<longrightarrow>
    (\<forall>df\<in>set dfs. ncols df = C \<and> Object \<notin> set (dtypes df)) \<longrightarrow>
    1 \<le> n \<longrightarrow>
      (C = 4 \<longrightarrow>
            fst (resample_data_bearing parse fmt self n fs) = None
          \<and> table_lines (snd (resample_data_bearing parse fmt self n fs)) (out_path (data_path self) n)
              = table_lines fs (out_path (data_path self) n)
                @ concat (map (\<lambda>df. map (\<lambda>w. csv_line fmt CHR '';'' (mean_abs_row w)) (windows df n)) dfs)
          \<and> (\<forall>df\<in>set dfs.
                length (windows df n) = nat n
              \<and> list_all (\<lambda>w. summary_row 4 w = Inr (mean_abs_row w) \<and> length (mean_abs_row w) = C)
                   (windows df n)))
       \<and> (C \<noteq> 4 \<longrightarrow> names \<noteq> [] \<longrightarrow>
            resample_data_bearing parse fmt self n fs = (Some ValueError, fs)))
   \<and> (n \<noteq> R \<longrightarrow>
    \<not> is_dir fs (out_path (data_path self) n) \<longrightarrow>
    read_csv parse (fs(out_path (data_path self) n := None)) (data_path self @ ''_4000.csv'')
      CHR '','' True = Inr df \<longrightarrow>
    Object \<notin> set (dtypes df) \<longrightarrow>
    kbm_measurements df R = Inr ms \<longrightarrow>
    1 \<le> n \<longrightarrow>
      (num_features self = int (ncols df) \<or> num_features self = - 1 \<longrightarrow>
            fst (resample_data_kbm parse fmt self n R fs) = None
          \<and> table_lines (snd (resample_data_kbm parse fmt self n R fs)) (out_path (data_path self) n)
              = concat (map (\<lambda>m. map (\<lambda>w. csv_line fmt CHR '';'' (mean_abs_row w)) (windows m n)) ms)
          \<and> (\<forall>m\<in>set ms.
                length (windows m n) = nat n
              \<and> list_all (\<lambda>w. summary_row (num_features self) w = Inr (mean_abs_row w)
                               \<and> length (mean_abs_row w) = ncols df)
                   (windows m n)))
       \<and> (num_features self \<noteq> int (ncols df) \<longrightarrow> num_features self \<noteq> - 1 \<longrightarrow>
            resample_data_kbm parse fmt self n R fs
              = (Some ValueError, fs(out_path (data_path self) n := None))))"
proof (rule conjI)
  show "os_scandir fs (data_path self) = Inr names \<longrightarrow>
    \<not> is_dir fs (out_path (data_path self) n) \<longrightarrow>
    map (\<lambda>name. read_csv parse fs (data_path self @ ''/'' @ name) (CHR 0x09) False) names
      = map Inr dfs \<longrightarrow>
    (\<forall>df\<in>set dfs. ncols df = C \<and> Object \<notin> set (dtypes df)) \<longrightarrow>
    1 \<le> n \<longrightarrow>
      (C = 4 \<longrightarrow>
            fst (resample_data_bearing parse fmt self n fs) = None
          \<and> table_lines (snd (resample_data_bearing parse fmt self n fs)) (out_path (data_path self) n)
              = table_lines fs (out_path (data_path self) n)
                @ concat (map (\<lambda>df. map (\<lambda>w. csv_line fmt CHR '';'' (mean_abs_row w)) (windows df n)) dfs)
          \<and> (\<forall>df\<in>set dfs.
                length (windows df n) = nat n
              \<and> list_all (\<lambda>w. summary_row 4 w = Inr (mean_abs_row w) \<and> length (mean_abs_row w) = C)
                   (windows df n)))
       \<and> (C \<noteq> 4 \<longrightarrow> names \<noteq> [] \<longrightarrow>
            resample_data_bearing parse fmt self n fs = (Some ValueError, fs))"
    using bearing_rows_written [of fs self names n parse dfs C fmt] by (intro impI)
next
  show "n \<noteq> R \<longrightarrow>
    \<not> is_dir fs (out_path (data_path self) n) \<longrightarrow>
    read_csv parse (fs(out_path (data_path self) n := None)) (data_path self @ ''_4000.csv'')
      CHR '','' True = Inr df \<longrightarrow>
    Object \<notin> set (dtypes df) \<longrightarrow>
    kbm_measurements df R = Inr ms \<longrightarrow>
    1 \<le> n \<longrightarrow>
      (num_features self = int (ncols df) \<or> num_features self = - 1 \<longrightarrow>
            fst (resample_data_kbm parse fmt self n R fs) = None
          \<and> table_lines (snd (resample_data_kbm parse fmt self n R fs)) (out_path (data_path self) n)
              = concat (map (\<lambda>m. map (\<lambda>w. csv_line fmt CHR '';'' (mean_abs_row w)) (windows m n)) ms)
          \<and> (\<forall>m\<in>set ms.
                length (windows m n) = nat n
              \<and> list_all (\<lambda>w. summary_row (num_features self) w = Inr (mean_abs_row w)
                               \<and> length (mean_abs_row w) = ncols df)
                   (windows m n)))
       \<and> (num_features self \<noteq> int (ncols df) \<longrightarrow> num_features self \<noteq> - 1 \<longrightarrow>
            resample_data_kbm parse fmt self n R fs
              = (Some ValueError, fs(out_path (data_path self) n := None)))"
    using kbm_rows_written [of n R fs self parse df ms fmt] by (intro impI)
qed

lemma demo_parse_three:
  "demo_parse [tsv [''1'', ''-2'', ''3'']] (CHR 0x09) False
     = Inr \<lparr>dtypes = [Numeric, Numeric, Numeric], rows = [[Num 1, Num (- 2), Num 3]]\<rparr>"
  by (simp add: demo_parse_def tsv_def demo_cell_def cell_at_def upt_conv_Cons)

lemma summary_row_three:
  "summary_row 4 \<lparr>dtypes = [Numeric, Numeric, Numeric], rows = [[Num 1, Num (- 2), Num 3]]\<rparr>
     = Inl ValueError"
  by (simp add: summary_row_def df_abs_def df_mean_def ncols_def reshape_row_def)

lemma summary_row_kbm_5:
  "summary_row 5 \<lparr>dtypes = [Numeric, Numeric], rows = replicate 4000 [Num 3, Num (- 4)]\<rparr>
     = Inl ValueError"
  by (simp add: summary_row_def df_abs_def df_mean_def ncols_def reshape_row_def)

lemma init_kbm_5: "init ''kbm'' 5 = \<lparr>data_path = ''kbm'', dataset = ''kbm'', num_features = 5\<rparr>"
  by (simp add: init_def)

text \<open>
  Claim C7 says that the rows written have \<open>C\<close> fields for any channel count \<open>C\<close>. A
  bearing recording of three channels leaves no output: the run ends in \<^verbatim>\<open>ValueError\<close>,
  the file system is the one before the run and holds no output file. The same holds
  for the KBM table of two channels read by a resampler with \<^verbatim>\<open>num_features = 5\<close>.
\<close>

theorem wrong_width_counterexample:
  "read_csv demo_parse three_channels ''data/a'' (CHR 0x09) False
     = Inr \<lparr>dtypes = [Numeric, Numeric, Numeric], rows = [[Num 1, Num (- 2), Num 3]]\<rparr>
   \<and> resample_data_bearing demo_parse demo_fmt (init ''data'' 4) 1 three_channels
     = (Some ValueError, three_channels)
   \<and> three_channels ''data_1.csv'' = None
   \<and> read_csv demo_parse kbm_table ''kbm_4000.csv'' CHR '','' True
     = Inr \<lparr>dtypes = [Numeric, Numeric], rows = replicate 4001 [Num 3, Num (- 4)]\<rparr>
   \<and> resample_data_kbm demo_parse demo_fmt (init ''kbm'' 5) 1 4000 kbm_table
     = (Some ValueError, kbm_table)
   \<and> kbm_table ''kbm_1.csv'' = None"
proof -
  have rd: "read_csv demo_parse three_channels ''data/a'' (CHR 0x09) False
     = Inr \<lparr>dtypes = [Numeric, Numeric, Numeric], rows = [[Num 1, Num (- 2), Num 3]]\<rparr>"
    by (simp add: read_csv_def three_channels_def demo_parse_three)
  have b: "resample_data_bearing demo_parse demo_fmt (init ''data'' 4) 1 three_channels
     = (Some ValueError, three_channels)"
    by (simp add: resample_data_bearing_def init_def os_scandir_def three_channels_def
        read_csv_def demo_parse_three array_split_df_def array_split_one summary_row_three)
  have rdk: "read_csv demo_parse kbm_table ''kbm_4000.csv'' CHR '','' True
     = Inr \<lparr>dtypes = [Numeric, Numeric], rows = replicate 4001 [Num 3, Num (- 4)]\<rparr>"
    by (simp add: read_csv_def kbm_table_def demo_parse_kbm)
  have rm: "remove_if_exists kbm_table ''kbm_1.csv'' = Inr kbm_table"
    by (simp add: remove_if_exists_def os_path_exists_def kbm_table_def)
  have k: "resample_data_kbm demo_parse demo_fmt (init ''kbm'' 5) 1 4000 kbm_table
     = (Some ValueError, kbm_table)"
    by (simp add: resample_data_kbm_def init_kbm_5 out_path_kbm_1 rm rdk kbm_measurements_4001
        array_split_df_def array_split_one summary_row_kbm_5)
  show ?thesis
    using rd b rdk k by (simp add: three_channels_def kbm_table_def)
qed

lemma windows_one: "windows df 1 = [df]"
  by (simp add: windows_def window_sizes_def)

lemma mean_abs_row_a:
  "mean_abs_row \<lparr>dtypes = [Numeric, Numeric, Numeric, Numeric],
            rows = [[Num 1, Num (- 1), Num 1, Num 1], [Num 3, Num 3, Num (- 3), Num 3]]\<rparr>
     = [Num 2, Num 2, Num 2, Num 2]"
  by (simp add: mean_abs_row_def df_mean_def ncols_def column_def cell_at_def col_mean_def
      upt_conv_Cons)

lemma mean_abs_row_b:
  "mean_abs_row \<lparr>dtypes = [Numeric, Numeric, Numeric, Numeric],
            rows = [[Num 5, Num 5, Num 5, Num 5], [Num (- 5), Num 5, Num 5, Num 5]]\<rparr>
     = [Num 5, Num 5, Num 5, Num 5]"
  by (simp add: mean_abs_row_def df_mean_def ncols_def column_def cell_at_def col_mean_def
      upt_conv_Cons)

lemma mean_abs_row_kbm:
  "mean_abs_row \<lparr>dtypes = [Numeric, Numeric], rows = replicate 4000 [Num 3, Num (- 4)]\<rparr>
     = [Num 3, Num 4]"
  by (simp add: mean_abs_row_def df_mean_def ncols_def column_def cell_at_def col_mean_def
      upt_conv_Cons numbers_replicate sum_list_replicate)

text \<open>
  The worked example: two recordings of four channels, one recording of three channels,
  and the KBM table of two channels read with \<^verbatim>\<open>num_features\<close> 2 and 5.
\<close>

theorem written_rows_have_source_width_witness:
  "os_scandir (two_files_listed [''a'', ''b'']) (data_path (init ''data'' 4)) = Inr [''a'', ''b'']
   \<and> fst (resample_data_bearing demo_parse demo_fmt (init ''data'' 4) 1
          (two_files_listed [''a'', ''b''])) = None
   \<and> table_lines (snd (resample_data_bearing demo_parse demo_fmt (init ''data'' 4) 1
          (two_files_listed [''a'', ''b'']))) ''data_1.csv''
       = [''2.0;2.0;2.0;2.0'', ''5.0;5.0;5.0;5.0'']
   \<and> os_scandir three_channels (data_path (init ''data'' 4)) = Inr [''a'']
   \<and> resample_data_bearing demo_parse demo_fmt (init ''data'' 4) 1 three_channels
       = (Some ValueError, three_channels)
   \<and> (1::int) \<noteq> 4000
   \<and> fst (resample_data_kbm demo_parse demo_fmt (init ''kbm'' 2) 1 4000 kbm_table) = None
   \<and> table_lines (snd (resample_data_kbm demo_parse demo_fmt (init ''kbm'' 2) 1 4000 kbm_table))
         ''kbm_1.csv''
       = [''3.0;4.0'']
   \<and> resample_data_kbm demo_parse demo_fmt (init ''kbm'' 5) 1 4000 kbm_table
       = (Some ValueError, kbm_table)"
proof -
  let ?self = "init ''data'' 4"
  let ?A = "\<lparr>dtypes = [Numeric, Numeric, Numeric, Numeric],
            rows = [[Num 1, Num (- 1), Num 1, Num 1], [Num 3, Num 3, Num (- 3), Num 3]]\<rparr>"
  let ?B = "\<lparr>dtypes = [Numeric, Numeric, Numeric, Numeric],
            rows = [[Num 5, Num 5, Num 5, Num 5], [Num (- 5), Num 5, Num 5, Num 5]]\<rparr>"
  let ?T = "\<lparr>dtypes = [Numeric, Numeric, Numeric], rows = [[Num 1, Num (- 2), Num 3]]\<rparr>"
  let ?df = "\<lparr>dtypes = [Numeric, Numeric], rows = replicate 4001 [Num 3, Num (- 4)]\<rparr>"
  let ?m = "\<lparr>dtypes = [Numeric, Numeric], rows = replicate 4000 [Num 3, Num (- 4)]\<rparr>"
  let ?fs = "two_files_listed [''a'', ''b'']"
  have dp: "data_path ?self = ''data''" by (simp add: init_def)
  have n1: "(1::int) \<le> 1" by simp
  \<comment> \<open>two recordings of four channels\<close>
  have sc: "os_scandir ?fs (data_path ?self) = Inr [''a'', ''b'']"
    by (simp add: os_scandir_def two_files_listed_def dp)
  have nd: "\<not> is_dir ?fs (out_path (data_path ?self) 1)"
    by (simp add: is_dir_def two_files_listed_def two_files_def dp out_path_data_1)
  have rd: "map (\<lambda>name. read_csv demo_parse ?fs (data_path ?self @ ''/'' @ name) (CHR 0x09) False)
              [''a'', ''b''] = map Inr [?A, ?B]"
    by (simp add: dp read_csv_def two_files_listed_def two_files_def demo_parse_a demo_parse_b)
  have ok: "\<forall>df\<in>set [?A, ?B]. ncols df = 4 \<and> Object \<notin> set (dtypes df)"
    by (simp add: ncols_def)
  have old: "table_lines ?fs ''data_1.csv'' = []"
    by (simp add: table_lines_def two_files_listed_def two_files_def)
  note B = written_rows_have_source_width [where parse = demo_parse and fmt = demo_fmt
      and self = ?self and n = 1, THEN conjunct1]
  note B1 = B [THEN mp, OF sc, THEN mp, OF nd, THEN mp, OF rd, THEN mp, OF ok, THEN mp, OF n1,
      THEN conjunct1, THEN mp, OF refl]
  have s1: "fst (resample_data_bearing demo_parse demo_fmt ?self 1 ?fs) = None"
    and s2: "table_lines (snd (resample_data_bearing demo_parse demo_fmt ?self 1 ?fs)) ''data_1.csv''
       = [''2.0;2.0;2.0;2.0'', ''5.0;5.0;5.0;5.0'']"
    using B1 by (simp_all add: dp out_path_data_1 old windows_one mean_abs_row_a mean_abs_row_b
        demo_lines)
  \<comment> \<open>one recording of three channels\<close>
  have sc3: "os_scandir three_channels (data_path ?self) = Inr [''a'']"
    by (simp add: os_scandir_def three_channels_def dp)
  have nd3: "\<not> is_dir three_channels (out_path (data_path ?self) 1)"
    by (simp add: is_dir_def three_channels_def dp out_path_data_1)
  have rd3: "map (\<lambda>name. read_csv demo_parse three_channels (data_path ?self @ ''/'' @ name)
                (CHR 0x09) False) [''a''] = map Inr [?T]"
    by (simp add: dp read_csv_def three_channels_def demo_parse_three)
  have ok3: "\<forall>df\<in>set [?T]. ncols df = 3 \<and> Object \<notin> set (dtypes df)"
    by (simp add: ncols_def)
  note B2 = B [THEN mp, OF sc3, THEN mp, OF nd3, THEN mp, OF rd3, THEN mp, OF ok3, THEN mp, OF n1,
      THEN conjunct2, rule_format]
  have f3: "resample_data_bearing demo_parse demo_fmt ?self 1 three_channels
       = (Some ValueError, three_channels)"
    by (rule B2) simp_all
  \<comment> \<open>the KBM table of two channels\<close>
  have ne: "(1::int) \<noteq> 4000" by simp
  have ndk: "\<not> is_dir kbm_table (out_path (data_path (init ''kbm'' k)) 1)" for k
    by (simp add: is_dir_def kbm_table_def init_def out_path_kbm_1)
  have rdk: "read_csv demo_parse (kbm_table(out_path (data_path (init ''kbm'' k)) 1 := None))
      (data_path (init ''kbm'' k) @ ''_4000.csv'') CHR '','' True = Inr ?df" for k
    by (simp add: read_csv_def kbm_table_def demo_parse_kbm init_def out_path_kbm_1)
  have num: "Object \<notin> set (dtypes ?df)" by simp
  have km: "kbm_measurements ?df 4000 = Inr [?m]"
    by (rule kbm_measurements_4001)
  have rm: "kbm_table(''kbm_1.csv'' := None) = kbm_table"
    by (simp add: kbm_table_def fun_eq_iff)
  note K = written_rows_have_source_width [where parse = demo_parse and fmt = demo_fmt and n = 1,
      THEN conjunct2, rule_format, OF ne ndk rdk num km n1]
  note K1 = K [of 2, THEN conjunct1, rule_format]
  have k1: "fst (resample_data_kbm demo_parse demo_fmt (init ''kbm'' 2) 1 4000 kbm_table) = None"
    and k2: "table_lines (snd (resample_data_kbm demo_parse demo_fmt (init ''kbm'' 2) 1 4000 kbm_table))
         ''kbm_1.csv'' = [''3.0;4.0'']"
    using K1 by (simp_all add: init_kbm out_path_kbm_1 ncols_def windows_one mean_abs_row_kbm
        demo_line_kbm)
  note K2 = K [of 5, THEN conjunct2, rule_format]
  have k5: "resample_data_kbm demo_parse demo_fmt (init ''kbm'' 5) 1 4000 kbm_table
       = (Some ValueError, kbm_table)"
    using K2 by (simp add: init_kbm_5 out_path_kbm_1 ncols_def rm)
  show ?thesis
    using sc s1 s2 sc3 f3 ne k1 k2 k5 by simp
qed

end
